theory Spec2Isabelle
  imports
    Complex_Main
    "HOL-Library.Char_ord"
    "HOL-Library.List_Lexorder"
    "HOL-Library.Product_Lexorder"
    "HOL-Library.Log_Nat"
begin

section \<open>JavaScript values used by the movie service\<close>

text \<open>
  Strings are modelled as \<^typ>\<open>string\<close>, one \<^typ>\<open>char\<close> per code unit, which covers
  every string whose code units lie below 256.  On this range the white space and line
  terminator characters that \<open>String.prototype.trim\<close> and \<open>parseInt\<close> skip are
  TAB, LF, VT, FF, CR, SP and NBSP (code 160).  The order on \<^typ>\<open>string\<close> is the
  lexicographic order on code units, which is also the binary string comparison the
  database applies when it sorts on a string field.

  The top-rated query only clamps the integers it parses or compares them with zero:
  there they are modelled as \<^typ>\<open>int\<close>, with \<open>NaN\<close> as \<^const>\<open>None\<close>.  The listing
  returns and multiplies the numbers it parses: there they are doubles, see below.
  The averages of the aggregation are modelled as exact rationals.
\<close>

definition isWhiteSpace :: "char \<Rightarrow> bool" where
  "isWhiteSpace c = (of_char c \<in> {9, 10, 11, 12, 13, 32, 160 :: nat})"

text \<open>\<open>s.trim()\<close>\<close>

definition trim :: "string \<Rightarrow> string" where
  "trim s = rev (dropWhile isWhiteSpace (rev (dropWhile isWhiteSpace s)))"

text \<open>The value of a character as a digit (\<open>0-9\<close>, \<open>a-z\<close>, \<open>A-Z\<close>); 36 when it is none.\<close>

definition digitValue :: "char \<Rightarrow> nat" where
  "digitValue c =
     (let n = of_char c :: nat in
      if 48 \<le> n \<and> n \<le> 57 then n - 48
      else if 97 \<le> n \<and> n \<le> 122 then n - 87
      else if 65 \<le> n \<and> n \<le> 90 then n - 55
      else 36)"

text \<open>
  \<open>parseInt(inputString, radix)\<close> as ECMAScript defines it, up to the mathematical
  integer that it reads with its sign; \<open>radix = None\<close> is the call with one argument and
  the result \<^const>\<open>None\<close> is \<open>NaN\<close>.  The JavaScript number that \<open>parseInt\<close> returns is
  this integer rounded to a double (\<open>Number\<close> below).  The top-rated query only clamps
  the number or compares it with zero, which the rounding does not change.
\<close>

definition parseInt :: "string \<Rightarrow> nat option \<Rightarrow> int option" where
  "parseInt inputString radix =
     (let S0 = dropWhile isWhiteSpace inputString;
          sign = (if take 1 S0 = ''-'' then - 1 else 1 :: int);
          S1 = (if take 1 S0 = ''+'' \<or> take 1 S0 = ''-'' then drop 1 S0 else S0);
          R0 = (case radix of None \<Rightarrow> 0 | Some r \<Rightarrow> r);
          stripPrefix = (R0 = 0 \<or> R0 = 16);
          R1 = (if R0 = 0 then 10 else R0)
      in if R1 < 2 \<or> 36 < R1 then None
         else
           let hex = (stripPrefix \<and> (take 2 S1 = ''0x'' \<or> take 2 S1 = ''0X''));
               S2 = (if hex then drop 2 S1 else S1);
               R = (if hex then 16 else R1);
               Z = takeWhile (\<lambda>c. digitValue c < R) S2
           in if Z = [] then None
              else Some (sign * int (foldl (\<lambda>a c. a * R + digitValue c) 0 Z)))"

text \<open>\<open>x || d\<close> for a number \<open>x\<close>: \<open>NaN\<close> and zero are falsy.\<close>

definition or_default :: "int option \<Rightarrow> int \<Rightarrow> int" where
  "or_default x d = (case x of None \<Rightarrow> d | Some n \<Rightarrow> if n = 0 then d else n)"

text \<open>\<open>x ?? d\<close> for a query parameter that is a string or absent.\<close>

definition nullish :: "string option \<Rightarrow> string \<Rightarrow> string" where
  "nullish x d = (case x of None \<Rightarrow> d | Some s \<Rightarrow> s)"

section \<open>JavaScript numbers\<close>

text \<open>Rounding to the nearest integer, a tie to the even one.\<close>

definition round_half_even :: "rat \<Rightarrow> int" where
  "round_half_even x =
     (let f = \<lfloor>x\<rfloor>; d = x - of_int f in
      if d < 1 / 2 then f else if 1 / 2 < d then f + 1 else if even f then f else f + 1)"

text \<open>
  A number is a double: a finite value, given as the rational it denotes, an infinity or
  \<open>NaN\<close>.  The two zeros are not told apart: the code never divides by a zero, and a
  zero of either sign is falsy and is written \<open>0\<close> in JSON.
\<close>

datatype number = Finite rat | PosInfinity | NegInfinity | NaN

text \<open>The exponent \<open>e\<close> with \<open>2^e \<le> x < 2^(e+1)\<close>, for a positive \<open>x\<close>.\<close>

definition binade :: "rat \<Rightarrow> int" where
  "binade x =
     (let (p, q) = quotient_of x; e = bitlen p - bitlen q
      in if 2 powi e \<le> x then e else e - 1)"

text \<open>
  The double nearest to a positive rational, a tie to the even significand, before the
  overflow is looked at: doubles have 53 significant bits, and a spacing of at least
  \<open>2^-1074\<close>.
\<close>

definition nearest_double :: "rat \<Rightarrow> rat" where
  "nearest_double x =
     (let q = max (binade x - 52) (- 1074)
      in of_int (round_half_even (x / 2 powi q)) * 2 powi q)"

text \<open>
  The number that an exact result rounds to (IEEE 754, round to nearest, ties to even): a
  magnitude that rounds to \<open>2^1024\<close> or more is an infinity.
\<close>

definition toDouble :: "rat \<Rightarrow> number" where
  "toDouble x =
     (if x = 0 then Finite 0
      else let y = nearest_double \<bar>x\<bar>
           in if 2 ^ 1024 \<le> y then (if 0 < x then PosInfinity else NegInfinity)
              else Finite (if 0 < x then y else - y))"

text \<open>
  The number that \<open>parseInt\<close> returns for the integer it read, correctly rounded (which
  is what the engine does for decimal digits, however many).
\<close>

definition Number :: "int option \<Rightarrow> number" where
  "Number r = (case r of None \<Rightarrow> NaN | Some n \<Rightarrow> toDouble (of_int n))"

text \<open>\<open>x || d\<close> for a number \<open>x\<close>: \<open>NaN\<close> and zero are falsy.\<close>

definition or_number :: "number \<Rightarrow> number \<Rightarrow> number" where
  "or_number x d = (if x = NaN \<or> x = Finite 0 then d else x)"

text \<open>\<open>Math.min(x, y)\<close>\<close>

fun Math_min :: "number \<Rightarrow> number \<Rightarrow> number" where
  "Math_min NaN y = NaN"
| "Math_min x NaN = NaN"
| "Math_min NegInfinity y = NegInfinity"
| "Math_min x NegInfinity = NegInfinity"
| "Math_min PosInfinity y = y"
| "Math_min x PosInfinity = x"
| "Math_min (Finite a) (Finite b) = Finite (min a b)"

text \<open>\<open>x - y\<close>\<close>

fun minus_number :: "number \<Rightarrow> number \<Rightarrow> number" where
  "minus_number (Finite a) (Finite b) = toDouble (a - b)"
| "minus_number NaN y = NaN"
| "minus_number x NaN = NaN"
| "minus_number PosInfinity PosInfinity = NaN"
| "minus_number NegInfinity NegInfinity = NaN"
| "minus_number PosInfinity y = PosInfinity"
| "minus_number NegInfinity y = NegInfinity"
| "minus_number x PosInfinity = NegInfinity"
| "minus_number x NegInfinity = PosInfinity"

definition negate :: "number \<Rightarrow> number" where
  "negate x =
     (case x of Finite a \<Rightarrow> Finite (- a) | PosInfinity \<Rightarrow> NegInfinity
      | NegInfinity \<Rightarrow> PosInfinity | NaN \<Rightarrow> NaN)"

text \<open>\<open>x * y\<close>: an infinity times zero is \<open>NaN\<close>.\<close>

fun times_number :: "number \<Rightarrow> number \<Rightarrow> number" where
  "times_number (Finite a) (Finite b) = toDouble (a * b)"
| "times_number NaN y = NaN"
| "times_number x NaN = NaN"
| "times_number (Finite a) y = (if a = 0 then NaN else if 0 < a then y else negate y)"
| "times_number x (Finite b) = (if b = 0 then NaN else if 0 < b then x else negate x)"
| "times_number PosInfinity y = y"
| "times_number NegInfinity y = negate y"

text \<open>\<open>x / y\<close>; a zero divisor, which the code never has, is taken as \<open>+0\<close>.\<close>

fun divide_number :: "number \<Rightarrow> number \<Rightarrow> number" where
  "divide_number (Finite a) (Finite b) =
     (if b = 0 then (if a = 0 then NaN else if 0 < a then PosInfinity else NegInfinity)
      else toDouble (a / b))"
| "divide_number NaN y = NaN"
| "divide_number x NaN = NaN"
| "divide_number (Finite a) y = Finite 0"
| "divide_number x (Finite b) = (if 0 \<le> b then x else negate x)"
| "divide_number x y = NaN"

text \<open>\<open>Math.ceil(x)\<close>\<close>

fun Math_ceil :: "number \<Rightarrow> number" where
  "Math_ceil (Finite a) = Finite (of_int \<lceil>a\<rceil>)"
| "Math_ceil x = x"

section \<open>MovieService.getTopRated: input normalisation\<close>

text \<open>The query parameters, each a string or absent.\<close>

record top_query =
  tq_genre :: "string option"
  tq_minVotes :: "string option"
  tq_limit :: "string option"

text \<open>\<open>const genre = (query.genre ?? '').trim()\<close>\<close>

definition getTopRated_genre :: "top_query \<Rightarrow> string" where
  "getTopRated_genre query = trim (nullish (tq_genre query) [])"

text \<open>\<open>const minVotes = Math.min(100, Math.max(1, parseInt(query.minVotes ?? '3', 10) || 3))\<close>\<close>

definition getTopRated_minVotes :: "top_query \<Rightarrow> int" where
  "getTopRated_minVotes query =
     min 100 (max 1 (or_default (parseInt (nullish (tq_minVotes query) ''3'') (Some 10)) 3))"

text \<open>\<open>const limit = Math.min(50, Math.max(1, parseInt(query.limit ?? '10', 10) || 10))\<close>\<close>

definition getTopRated_limit :: "top_query \<Rightarrow> int" where
  "getTopRated_limit query =
     min 50 (max 1 (or_default (parseInt (nullish (tq_limit query) ''10'') (Some 10)) 10))"

section \<open>Regular expressions built with the flag \<open>i\<close>\<close>

text \<open>
  \<open>new RegExp(source, 'i')\<close> is kept as its source text; the database evaluates it in
  \<open>$regex\<close>.  The model interprets the patterns made of printable ASCII characters with
  no syntax character (a literal, matched anywhere in the subject, ignoring the case of
  ASCII letters) on ASCII subjects.  Every other pattern or subject is left to the
  regular expression engine, a parameter: \<open>rx_valid\<close> says whether the constructor
  accepts a pattern (it throws \<open>SyntaxError\<close> otherwise) and \<open>rx_exec\<close> whether a pattern
  matches a subject.
\<close>

datatype regexp = RegExp string

record regex_engine =
  rx_valid :: "string \<Rightarrow> bool"
  rx_exec :: "string \<Rightarrow> string \<Rightarrow> bool"

datatype error = SyntaxError | MongoServerError

definition syntaxCharacter :: "char \<Rightarrow> bool" where
  "syntaxCharacter c =
     (of_char c \<in> {36, 40, 41, 42, 43, 46, 63, 91, 92, 93, 94, 123, 124, 125 :: nat})"

definition plainChar :: "char \<Rightarrow> bool" where
  "plainChar c = (32 \<le> (of_char c :: nat) \<and> (of_char c :: nat) \<le> 126 \<and> \<not> syntaxCharacter c)"

definition asciiChar :: "char \<Rightarrow> bool" where
  "asciiChar c = ((of_char c :: nat) < 128)"

definition asciiLower :: "char \<Rightarrow> char" where
  "asciiLower c =
     (let n = of_char c :: nat in if 65 \<le> n \<and> n \<le> 90 then char_of (n + 32) else c)"

definition ci_prefix :: "string \<Rightarrow> string \<Rightarrow> bool" where
  "ci_prefix pat s = (map asciiLower pat = take (length pat) (map asciiLower s))"

fun ci_contains :: "string \<Rightarrow> string \<Rightarrow> bool" where
  "ci_contains pat [] = (pat = [])"
| "ci_contains pat (c # cs) = (ci_prefix pat (c # cs) \<or> ci_contains pat cs)"

definition new_RegExp :: "regex_engine \<Rightarrow> string \<Rightarrow> error + regexp" where
  "new_RegExp E source =
     (if list_all plainChar source \<or> rx_valid E source then Inr (RegExp source)
      else Inl SyntaxError)"

fun regex_test :: "regex_engine \<Rightarrow> regexp \<Rightarrow> string \<Rightarrow> bool" where
  "regex_test E (RegExp source) s =
     (if list_all plainChar source \<and> list_all asciiChar s then ci_contains source s
      else rx_exec E source s)"

section \<open>The collections\<close>

text \<open>
  A movie document with the fields the aggregation reads (\<open>_id\<close>, \<open>title\<close>, \<open>genre\<close>; a
  missing \<open>genre\<close> is \<^const>\<open>None\<close>), a rating document (\<open>movie\<close>, the reference, and
  \<open>rating\<close>, the score) and a snapshot of the two collections.  The database is taken
  to answer: a lost connection is not part of the model.
\<close>

record movie =
  mv_id :: nat
  mv_title :: string
  mv_genre :: "string option"

record rating =
  rt_movie :: nat
  rt_rating :: rat

record database =
  db_movies :: "movie list"
  db_ratings :: "rating list"

section \<open>RatingRepository.getTopRatedAggregates\<close>

text \<open>\<open>$lookup\<close>: the field \<open>movie\<close> becomes the array of the movies whose \<open>_id\<close> it equals.\<close>

definition lookup_stage :: "movie list \<Rightarrow> rating list \<Rightarrow> (rating \<times> movie list) list" where
  "lookup_stage ms rs = map (\<lambda>r. (r, filter (\<lambda>m. mv_id m = rt_movie r) ms)) rs"

text \<open>\<open>$unwind\<close>: one document per element of the array, none for an empty array.\<close>

definition unwind_stage :: "(rating \<times> movie list) list \<Rightarrow> (rating \<times> movie) list" where
  "unwind_stage ds = concat (map (\<lambda>(r, ms). map (Pair r) ms) ds)"

text \<open>\<open>$match: { 'movie.genre': { $regex: genreRegex } }\<close>; a missing field matches nothing.\<close>

definition genre_matches :: "regex_engine \<Rightarrow> regexp \<Rightarrow> movie \<Rightarrow> bool" where
  "genre_matches E re m = (case mv_genre m of None \<Rightarrow> False | Some g \<Rightarrow> regex_test E re g)"

definition match_genre_stage ::
  "regex_engine \<Rightarrow> regexp \<Rightarrow> (rating \<times> movie) list \<Rightarrow> (rating \<times> movie) list" where
  "match_genre_stage E re ds = filter (\<lambda>(r, m). genre_matches E re m) ds"

record group_doc =
  g_id :: nat
  g_movieId :: nat
  g_title :: string
  g_genre :: "string option"
  g_avgRating :: rat
  g_voteCount :: nat

text \<open>
  \<open>$group\<close> by \<open>movie._id\<close>: \<open>$first\<close> takes from the first document of the group, \<open>$avg\<close>
  is the mean of the scores and \<open>$sum: 1\<close> counts the documents.
\<close>

fun group_stage :: "(rating \<times> movie) list \<Rightarrow> group_doc list" where
  "group_stage [] = []"
| "group_stage ((r, m) # ds) =
     (let scores = rt_rating r # map (\<lambda>d. rt_rating (fst d)) (filter (\<lambda>d. mv_id (snd d) = mv_id m) ds)
      in \<lparr>g_id = mv_id m, g_movieId = mv_id m, g_title = mv_title m, g_genre = mv_genre m,
           g_avgRating = sum_list scores / of_nat (length scores),
           g_voteCount = length scores\<rparr>
         # group_stage (filter (\<lambda>d. mv_id (snd d) \<noteq> mv_id m) ds))"

text \<open>\<open>$match: { voteCount: { $gte: Number(minVotes) } }\<close>\<close>

definition match_votes_stage :: "int \<Rightarrow> group_doc list \<Rightarrow> group_doc list" where
  "match_votes_stage minVotes gs = filter (\<lambda>g. minVotes \<le> int (g_voteCount g)) gs"

text \<open>
  \<open>$sort: { avgRating: -1, voteCount: -1, title: 1 }\<close>, on the average that \<open>$group\<close>
  computed.  The order of two groups equal on the three keys is the engine's choice; the
  model keeps the order of \<open>$group\<close>, and no property below depends on it.
\<close>

definition sort_spec :: "group_doc \<Rightarrow> rat \<times> int \<times> string" where
  "sort_spec g = (- g_avgRating g, - int (g_voteCount g), g_title g)"

definition sort_stage :: "group_doc list \<Rightarrow> group_doc list" where
  "sort_stage gs = sort_key sort_spec gs"

text \<open>\<open>$limit: Number(limit)\<close>, for a positive limit.\<close>

definition limit_stage :: "int \<Rightarrow> group_doc list \<Rightarrow> group_doc list" where
  "limit_stage n gs = take (nat n) gs"

text \<open>\<open>$round\<close> rounds to the nearest value with the given number of decimals, a tie to even.\<close>

definition round3 :: "rat \<Rightarrow> rat" where
  "round3 x = of_int (round_half_even (x * 1000)) / 1000"

record top_row =
  r_movieId :: nat
  r_title :: string
  r_genre :: "string option"
  r_avgRating :: rat
  r_voteCount :: nat

text \<open>\<open>$project\<close>: the output shape, with \<open>avgRating\<close> rounded to 3 decimals.\<close>

definition project_stage :: "group_doc \<Rightarrow> top_row" where
  "project_stage g =
     \<lparr>r_movieId = g_movieId g, r_title = g_title g, r_genre = g_genre g,
      r_avgRating = round3 (g_avgRating g), r_voteCount = g_voteCount g\<rparr>"

text \<open>
  The options as the caller passes them; an absent \<open>minVotes\<close> or \<open>limit\<close> takes the
  default of the parameter list, and \<open>genreRegex\<close> is a regular expression or \<open>null\<close>.
\<close>

record agg_options =
  o_genreRegex :: "regexp option"
  o_minVotes :: "int option"
  o_limit :: "int option"

text \<open>The documents that reach \<open>$group\<close>: the join, then the optional genre filter.\<close>

definition joined_docs :: "regex_engine \<Rightarrow> regexp option \<Rightarrow> database \<Rightarrow> (rating \<times> movie) list" where
  "joined_docs E genreRegex db =
     (let ds = unwind_stage (lookup_stage (db_movies db) (db_ratings db))
      in case genreRegex of None \<Rightarrow> ds | Some re \<Rightarrow> match_genre_stage E re ds)"

text \<open>The documents that reach \<open>$project\<close>: grouped, filtered by votes, sorted, limited.\<close>

definition ranked_groups ::
  "regex_engine \<Rightarrow> regexp option \<Rightarrow> int \<Rightarrow> int \<Rightarrow> database \<Rightarrow> group_doc list" where
  "ranked_groups E genreRegex minVotes limit db =
     limit_stage limit (sort_stage (match_votes_stage minVotes
       (group_stage (joined_docs E genreRegex db))))"

text \<open>
  The whole pipeline.  The database rejects a \<open>$limit\<close> that is not positive, which makes
  the returned promise reject.
\<close>

definition getTopRatedAggregates ::
  "regex_engine \<Rightarrow> agg_options \<Rightarrow> database \<Rightarrow> error + top_row list" where
  "getTopRatedAggregates E opts db =
     (let genreRegex = o_genreRegex opts;
          minVotes = (case o_minVotes opts of None \<Rightarrow> 3 | Some v \<Rightarrow> v);
          limit = (case o_limit opts of None \<Rightarrow> 10 | Some v \<Rightarrow> v)
      in if limit \<le> 0 then Inl MongoServerError
         else Inr (map project_stage (ranked_groups E genreRegex minVotes limit db)))"

section \<open>MovieService.getTopRated\<close>

record top_meta =
  m_generatedAt :: string
  m_limit :: int
  m_minVotes :: int
  m_genre :: "string option"

record top_response =
  t_data :: "top_row list"
  t_meta :: top_meta

text \<open>\<open>const genreRegex = genre ? new RegExp(genre, 'i') : null\<close>\<close>

definition getTopRated_genreRegex :: "regex_engine \<Rightarrow> string \<Rightarrow> error + regexp option" where
  "getTopRated_genreRegex E genre =
     (if genre \<noteq> [] then
        (case new_RegExp E genre of Inl e \<Rightarrow> Inl e | Inr re \<Rightarrow> Inr (Some re))
      else Inr None)"

text \<open>
  The service call on a snapshot \<open>db\<close> of the collections; \<open>now\<close> is the text of
  \<open>new Date().toISOString()\<close>.  An exception or a rejected promise is \<^const>\<open>Inl\<close>.
\<close>

definition getTopRated ::
  "regex_engine \<Rightarrow> string \<Rightarrow> database \<Rightarrow> top_query \<Rightarrow> error + top_response" where
  "getTopRated E now db query =
     (let genre = getTopRated_genre query;
          minVotes = getTopRated_minVotes query;
          limit = getTopRated_limit query
      in case getTopRated_genreRegex E genre of
           Inl e \<Rightarrow> Inl e
         | Inr genreRegex \<Rightarrow>
             (case getTopRatedAggregates E
                     \<lparr>o_genreRegex = genreRegex, o_minVotes = Some minVotes, o_limit = Some limit\<rparr> db of
                Inl e \<Rightarrow> Inl e
              | Inr rows \<Rightarrow>
                  Inr \<lparr>t_data =
                         map (\<lambda>r. \<lparr>r_movieId = r_movieId r, r_title = r_title r,
                                   r_genre = r_genre r, r_avgRating = r_avgRating r,
                                   r_voteCount = r_voteCount r\<rparr>) rows,
                       t_meta = \<lparr>m_generatedAt = now, m_limit = limit, m_minVotes = minVotes,
                                 m_genre = (if genre \<noteq> [] then Some genre else None)\<rparr>\<rparr>))"

section \<open>MovieService.getAllMovies and MovieService.getMovie\<close>

text \<open>
  The movie repository is a collaborator of the service: its three calls are parameters.
  A call resolves (\<^const>\<open>Inr\<close>) or rejects (\<^const>\<open>Inl\<close>).  \<open>getMovie\<close> resolves to a
  document, to \<open>null\<close> or to \<open>undefined\<close>.
\<close>

record list_query =
  lq_genre :: "string option"
  lq_year :: "string option"
  lq_page :: "string option"
  lq_limit :: "string option"

record movie_filter =
  f_genre :: "regexp option"
  f_release_year :: "number option"

record find_options =
  fo_limit :: number
  fo_skip :: number

datatype 'm found = Undefined | Null | Document 'm

record 'm movie_repository =
  repo_getAllMovies :: "movie_filter \<Rightarrow> find_options \<Rightarrow> error + 'm list"
  repo_countMovies :: "movie_filter \<Rightarrow> error + nat"
  repo_getMovie :: "string \<Rightarrow> error + 'm found"

record 'm listing =
  l_movies :: "'m list"
  l_total :: nat
  l_page :: number
  l_pages :: number

text \<open>
  \<open>parseInt(x)\<close> for a query parameter: an absent one reads as the text \<open>undefined\<close>.
  \<open>parseInt_param\<close> is the integer read, \<open>parseInt_number\<close> the number returned.
\<close>

definition parseInt_param :: "string option \<Rightarrow> int option" where
  "parseInt_param x = parseInt (nullish x ''undefined'') None"

definition parseInt_number :: "string option \<Rightarrow> number" where
  "parseInt_number x = Number (parseInt_param x)"

text \<open>
  The filter: \<open>genre\<close> when \<open>query.genre\<close> is truthy (a string that is not empty),
  \<open>release_year\<close> when \<open>parseInt(query.year)\<close> is not \<open>NaN\<close>.
\<close>

definition getAllMovies_filter :: "regex_engine \<Rightarrow> list_query \<Rightarrow> error + movie_filter" where
  "getAllMovies_filter E query =
     (let year = parseInt_number (lq_year query);
          release_year = (if year \<noteq> NaN then Some year else None)
      in case lq_genre query of
           None \<Rightarrow> Inr \<lparr>f_genre = None, f_release_year = release_year\<rparr>
         | Some g \<Rightarrow>
             if g \<noteq> [] then
               (case new_RegExp E g of
                  Inl e \<Rightarrow> Inl e
                | Inr re \<Rightarrow> Inr \<lparr>f_genre = Some re, f_release_year = release_year\<rparr>)
             else Inr \<lparr>f_genre = None, f_release_year = release_year\<rparr>)"

text \<open>\<open>const page = parseInt(query.page) || 1\<close>\<close>

definition getAllMovies_page :: "list_query \<Rightarrow> number" where
  "getAllMovies_page query = or_number (parseInt_number (lq_page query)) (Finite 1)"

text \<open>\<open>const limit = Math.min(parseInt(query.limit) || 10, 100)\<close>\<close>

definition getAllMovies_limit :: "list_query \<Rightarrow> number" where
  "getAllMovies_limit query =
     Math_min (or_number (parseInt_number (lq_limit query)) (Finite 10)) (Finite 100)"

text \<open>\<open>const skip = (page - 1) * limit\<close>\<close>

definition getAllMovies_skip :: "list_query \<Rightarrow> number" where
  "getAllMovies_skip query =
     times_number (minus_number (getAllMovies_page query) (Finite 1)) (getAllMovies_limit query)"

text \<open>
  \<open>Math.ceil(total / limit)\<close>; the count that the repository returns is a natural
  number, read as a JavaScript number.
\<close>

definition getAllMovies_pages :: "nat \<Rightarrow> number \<Rightarrow> number" where
  "getAllMovies_pages n limit = Math_ceil (divide_number (toDouble (of_nat n)) limit)"

definition getAllMovies ::
  "regex_engine \<Rightarrow> 'm movie_repository \<Rightarrow> list_query \<Rightarrow> error + 'm listing" where
  "getAllMovies E repo query =
     (case getAllMovies_filter E query of
        Inl e \<Rightarrow> Inl e
      | Inr flt \<Rightarrow>
          (let page = getAllMovies_page query;
               limit = getAllMovies_limit query;
               skip = getAllMovies_skip query;
               options = \<lparr>fo_limit = limit, fo_skip = skip\<rparr>
           in case repo_getAllMovies repo flt options of
                Inl e \<Rightarrow> Inl e
              | Inr movies \<Rightarrow>
                  (case repo_countMovies repo flt of
                     Inl e \<Rightarrow> Inl e
                   | Inr n \<Rightarrow>
                       Inr \<lparr>l_movies = movies, l_total = n, l_page = page,
                            l_pages = getAllMovies_pages n limit\<rparr>)))"

text \<open>\<open>const movie = await this.movieRepository.getMovie(id); return movie || null\<close>\<close>

definition getMovie :: "'m movie_repository \<Rightarrow> string \<Rightarrow> error + 'm found" where
  "getMovie repo ident =
     (case repo_getMovie repo ident of
        Inl e \<Rightarrow> Inl e
      | Inr movie \<Rightarrow> Inr (case movie of Document m \<Rightarrow> Document m | _ \<Rightarrow> Null))"

section \<open>Notions used to state the properties\<close>

text \<open>The documents of one group, and what the raw collections say about one movie.\<close>

definition group_of :: "(rating \<times> movie) list \<Rightarrow> nat \<Rightarrow> (rating \<times> movie) list" where
  "group_of ds k = filter (\<lambda>d. mv_id (snd d) = k) ds"

definition passes_genre :: "regex_engine \<Rightarrow> regexp option \<Rightarrow> movie \<Rightarrow> bool" where
  "passes_genre E genreRegex m =
     (case genreRegex of None \<Rightarrow> True | Some re \<Rightarrow> genre_matches E re m)"

definition votes_for :: "database \<Rightarrow> nat \<Rightarrow> nat" where
  "votes_for db k = length (filter (\<lambda>r. rt_movie r = k) (db_ratings db))"

definition scores_for :: "database \<Rightarrow> nat \<Rightarrow> rat list" where
  "scores_for db k = map rt_rating (filter (\<lambda>r. rt_movie r = k) (db_ratings db))"

definition mean :: "rat list \<Rightarrow> rat" where
  "mean xs = sum_list xs / of_nat (length xs)"

text \<open>The movies that pass the genre filter and have at least \<open>minVotes\<close> ratings, one at least.\<close>

definition eligible_movies :: "regex_engine \<Rightarrow> regexp option \<Rightarrow> int \<Rightarrow> database \<Rightarrow> movie list" where
  "eligible_movies E genreRegex minVotes db =
     filter (\<lambda>m. passes_genre E genreRegex m \<and> 0 < votes_for db (mv_id m)
                \<and> minVotes \<le> int (votes_for db (mv_id m))) (db_movies db)"



text \<open>
  The normalisation of a numeric parameter as the specification words it: the default
  when the input is missing or not numeric, otherwise the parsed integer clamped to
  \<open>[lo, hi]\<close>.
\<close>

definition spec_normalise :: "int \<Rightarrow> int \<Rightarrow> int \<Rightarrow> string option \<Rightarrow> int" where
  "spec_normalise dflt lo hi x =
     (case x of
        None \<Rightarrow> dflt
      | Some s \<Rightarrow> (case parseInt s (Some 10) of None \<Rightarrow> dflt | Some n \<Rightarrow> max lo (min hi n)))"

section \<open>Example data\<close>

text \<open>An engine that knows no pattern beyond the literal ones.\<close>

definition literal_engine :: regex_engine where
  "literal_engine = \<lparr>rx_valid = (\<lambda>_. False), rx_exec = (\<lambda>_ _. False)\<rparr>"

definition no_params :: top_query where
  "no_params = \<lparr>tq_genre = None, tq_minVotes = None, tq_limit = None\<rparr>"

text \<open>
  The example of the specification: three ratings of movie 1 (5, 4, 5), four of movie 2
  (all 3), one of movie 3, and one rating of a movie 9 that does not exist.
\<close>

definition db_example :: database where
  "db_example =
     \<lparr>db_movies =
        [\<lparr>mv_id = 1, mv_title = ''Heat'', mv_genre = Some ''Action/Adventure''\<rparr>,
         \<lparr>mv_id = 2, mv_title = ''Solaris'', mv_genre = Some ''Sci-Fi Action''\<rparr>,
         \<lparr>mv_id = 3, mv_title = ''Amour'', mv_genre = Some ''Drama''\<rparr>],
      db_ratings =
        [\<lparr>rt_movie = 1, rt_rating = 5\<rparr>, \<lparr>rt_movie = 2, rt_rating = 3\<rparr>,
         \<lparr>rt_movie = 1, rt_rating = 4\<rparr>, \<lparr>rt_movie = 2, rt_rating = 3\<rparr>,
         \<lparr>rt_movie = 9, rt_rating = 5\<rparr>, \<lparr>rt_movie = 1, rt_rating = 5\<rparr>,
         \<lparr>rt_movie = 2, rt_rating = 3\<rparr>, \<lparr>rt_movie = 3, rt_rating = 5\<rparr>,
         \<lparr>rt_movie = 2, rt_rating = 3\<rparr>]\<rparr>"



text \<open>A repository over a fixed list of movie titles, which ignores the filter.\<close>

definition index_of :: "number \<Rightarrow> nat" where
  "index_of x = (case x of Finite a \<Rightarrow> nat \<lfloor>a\<rfloor> | _ \<Rightarrow> 0)"

definition titles_repository :: "string list \<Rightarrow> string movie_repository" where
  "titles_repository ts =
     \<lparr>repo_getAllMovies =
        (\<lambda>f opts. Inr (take (index_of (fo_limit opts)) (drop (index_of (fo_skip opts)) ts))),
      repo_countMovies = (\<lambda>f. Inr (length ts)),
      repo_getMovie = (\<lambda>i. if i \<in> set ts then Inr (Document i) else Inr Null)\<rparr>"

text \<open>
  A repository over a fixed catalogue of movies (title, genre, release year) that applies
  the filter: the genre must match the regular expression and the year must be equal.
\<close>

definition catalogue_matches ::
  "regex_engine \<Rightarrow> movie_filter \<Rightarrow> string \<times> string \<times> int \<Rightarrow> bool" where
  "catalogue_matches E flt m =
     (case m of (title, genre, year) \<Rightarrow>
        (case f_genre flt of None \<Rightarrow> True | Some re \<Rightarrow> regex_test E re genre)
        \<and> (case f_release_year flt of None \<Rightarrow> True | Some y \<Rightarrow> y = Finite (of_int year)))"

definition catalogue_repository ::
  "regex_engine \<Rightarrow> (string \<times> string \<times> int) list \<Rightarrow> string movie_repository" where
  "catalogue_repository E ms =
     \<lparr>repo_getAllMovies =
        (\<lambda>f opts. Inr (map fst (take (index_of (fo_limit opts))
                    (drop (index_of (fo_skip opts)) (filter (catalogue_matches E f) ms))))),
      repo_countMovies = (\<lambda>f. Inr (length (filter (catalogue_matches E f) ms))),
      repo_getMovie = (\<lambda>i. if i \<in> fst ` set ms then Inr (Document i) else Inr Null)\<rparr>"

definition catalogue :: "(string \<times> string \<times> int) list" where
  "catalogue =
     [(''Heat'', ''Action/Crime'', 1995), (''Alien'', ''Horror'', 1979),
      (''Speed'', ''Action'', 1994), (''Casino'', ''Crime'', 1995),
      (''GoldenEye'', ''Action'', 1995), (''Desperado'', ''Action'', 1995)]"

section \<open>Auxiliary facts about the pipeline stages\<close>

lemma group_stage_ids: "g_id ` set (group_stage ds) = (mv_id \<circ> snd) ` set ds"
proof (induction ds rule: group_stage.induct)
  case 1
  show ?case by simp
next
  case (2 r m ds)
  have "(mv_id \<circ> snd) ` set ((r, m) # ds) =
        insert (mv_id m) ((mv_id \<circ> snd) ` set (filter (\<lambda>d. mv_id (snd d) \<noteq> mv_id m) ds))"
    by auto
  with 2 show ?case by (simp add: Let_def)
qed

lemma group_stage_distinct: "distinct (map g_id (group_stage ds))"
proof (induction ds rule: group_stage.induct)
  case 1
  show ?case by simp
next
  case (2 r m ds)
  have "mv_id m \<notin> g_id ` set (group_stage (filter (\<lambda>d. mv_id (snd d) \<noteq> mv_id m) ds))"
    unfolding group_stage_ids by auto
  with 2 show ?case by (simp add: Let_def)
qed

lemma group_of_filter_other:
  "k \<noteq> j \<Longrightarrow> group_of (filter (\<lambda>d. mv_id (snd d) \<noteq> j) ds) k = group_of ds k"
  unfolding group_of_def by (induction ds) auto

lemma group_stage_member:
  assumes "g \<in> set (group_stage ds)"
  shows "g_movieId g = g_id g
       \<and> g_voteCount g = length (group_of ds (g_id g))
       \<and> g_avgRating g = sum_list (map (\<lambda>d. rt_rating (fst d)) (group_of ds (g_id g)))
                             / of_nat (length (group_of ds (g_id g)))
       \<and> group_of ds (g_id g) \<noteq> []
       \<and> g_title g = mv_title (snd (hd (group_of ds (g_id g))))
       \<and> g_genre g = mv_genre (snd (hd (group_of ds (g_id g))))"
  using assms
proof (induction ds rule: group_stage.induct)
  case 1
  then show ?case by simp
next
  case (2 r m ds)
  let ?rest = "filter (\<lambda>d. mv_id (snd d) \<noteq> mv_id m) ds"
  let ?same = "filter (\<lambda>d. mv_id (snd d) = mv_id m) ds"
  let ?scores = "rt_rating r # map (\<lambda>d. rt_rating (fst d)) ?same"
  let ?h = "\<lparr>g_id = mv_id m, g_movieId = mv_id m, g_title = mv_title m, g_genre = mv_genre m,
            g_avgRating = sum_list ?scores / of_nat (length ?scores),
            g_voteCount = length ?scores\<rparr>"
  have gs: "group_stage ((r, m) # ds) = ?h # group_stage ?rest"
    by (simp add: Let_def)
  from "2.prems" have "g = ?h \<or> g \<in> set (group_stage ?rest)"
    unfolding gs by simp
  then show ?case
  proof
    assume g: "g = ?h"
    have go: "group_of ((r, m) # ds) (mv_id m) = (r, m) # ?same"
      by (simp add: group_of_def)
    show ?thesis
      unfolding g by (simp add: go)
  next
    assume tail: "g \<in> set (group_stage ?rest)"
    then have "g_id g \<in> (mv_id \<circ> snd) ` set ?rest"
      using group_stage_ids [of ?rest] by blast
    then have ne: "g_id g \<noteq> mv_id m" by auto
    then have "group_of ((r, m) # ds) (g_id g) = group_of ?rest (g_id g)"
      using group_of_filter_other [OF ne, of ds] by (simp add: group_of_def)
    with "2.IH" [OF refl tail] show ?thesis by simp
  qed
qed

lemma joined_docs_eq:
  "joined_docs E genreRegex db =
     concat (map (\<lambda>r. map (Pair r)
       (filter (\<lambda>m. mv_id m = rt_movie r \<and> passes_genre E genreRegex m) (db_movies db))) (db_ratings db))"
  by (cases genreRegex)
    (simp_all add: joined_docs_def unwind_stage_def lookup_stage_def match_genre_stage_def
      passes_genre_def comp_def filter_concat filter_map)

lemma group_of_joined:
  assumes "distinct (map mv_id ms)"
  shows "group_of (concat (map (\<lambda>r. map (Pair r) (filter (\<lambda>m. mv_id m = rt_movie r \<and> P m) ms)) rs)) k
       = concat (map (\<lambda>r. map (Pair r) (filter (\<lambda>m. mv_id m = k \<and> P m) ms)) (filter (\<lambda>r. rt_movie r = k) rs))"
  unfolding group_of_def
proof (induction rs)
  case Nil
  show ?case by simp
next
  case (Cons r rs)
  have "filter (\<lambda>d. mv_id (snd d) = k) (map (Pair r) (filter (\<lambda>m. mv_id m = rt_movie r \<and> P m) ms))
      = (if rt_movie r = k then map (Pair r) (filter (\<lambda>m. mv_id m = k \<and> P m) ms) else [])"
    by (simp add: filter_map comp_def cong: conj_cong)
  with Cons show ?case by simp
qed

lemma distinct_filter_id:
  assumes "distinct (map mv_id ms)" "m \<in> set ms"
  shows "filter (\<lambda>m'. mv_id m' = mv_id m) ms = [m]"
  using assms
proof (induction ms)
  case Nil
  then show ?case by simp
next
  case (Cons a ms)
  show ?case
  proof (cases "a = m")
    case True
    with Cons.prems have "mv_id m \<notin> mv_id ` set ms" by simp
    then have "\<forall>x\<in>set ms. mv_id x \<noteq> mv_id m" by (metis image_eqI)
    then have "filter (\<lambda>m'. mv_id m' = mv_id m) ms = []" by (simp add: filter_empty_conv)
    with True show ?thesis by simp
  next
    case False
    with Cons.prems have "m \<in> set ms" "mv_id a \<noteq> mv_id m" by auto
    with Cons show ?thesis by simp
  qed
qed

lemma group_of_joined_unique:
  assumes d: "distinct (map mv_id (db_movies db))" and m: "m \<in> set (db_movies db)"
    and p: "passes_genre E genreRegex m"
  shows "group_of (joined_docs E genreRegex db) (mv_id m)
       = map (\<lambda>r. (r, m)) (filter (\<lambda>r. rt_movie r = mv_id m) (db_ratings db))"
proof -
  have "filter (\<lambda>m'. mv_id m' = mv_id m \<and> passes_genre E genreRegex m') (db_movies db)
      = filter (passes_genre E genreRegex) (filter (\<lambda>m'. mv_id m' = mv_id m) (db_movies db))"
    by simp
  also have "\<dots> = [m]"
    using distinct_filter_id [OF d m] p by simp
  finally have one: "filter (\<lambda>m'. mv_id m' = mv_id m \<and> passes_genre E genreRegex m') (db_movies db) = [m]" .
  have "concat (map (\<lambda>r. [(r, m)]) rs) = map (\<lambda>r. (r, m)) rs" for rs :: "rating list"
    by (induction rs) simp_all
  then show ?thesis
    unfolding joined_docs_eq group_of_joined [OF d] one by simp
qed

lemma group_of_joined_nonempty:
  assumes "group_of (joined_docs E genreRegex db) k \<noteq> []"
  shows "\<exists>m\<in>set (db_movies db). mv_id m = k \<and> passes_genre E genreRegex m"
proof -
  from assms obtain d where "d \<in> set (joined_docs E genreRegex db)" "mv_id (snd d) = k"
    unfolding group_of_def by (auto simp: filter_empty_conv)
  then show ?thesis
    unfolding joined_docs_eq by auto
qed

lemma group_joined_member:
  assumes d: "distinct (map mv_id (db_movies db))"
    and g: "g \<in> set (group_stage (joined_docs E genreRegex db))"
  shows "\<exists>m\<in>set (db_movies db). mv_id m = g_id g \<and> passes_genre E genreRegex m
           \<and> g_movieId g = mv_id m \<and> g_title g = mv_title m \<and> g_genre g = mv_genre m
           \<and> g_voteCount g = votes_for db (mv_id m)
           \<and> 0 < votes_for db (mv_id m)
           \<and> g_avgRating g = mean (scores_for db (mv_id m))"
proof -
  let ?ds = "joined_docs E genreRegex db"
  note mem = group_stage_member [OF g]
  from mem have "group_of ?ds (g_id g) \<noteq> []" by simp
  from group_of_joined_nonempty [OF this]
  obtain m where m: "m \<in> set (db_movies db)" "mv_id m = g_id g" "passes_genre E genreRegex m"
    by blast
  have go: "group_of ?ds (g_id g) = map (\<lambda>r. (r, m)) (filter (\<lambda>r. rt_movie r = mv_id m) (db_ratings db))"
    using group_of_joined_unique [OF d m(1) m(3)] m(2) by simp
  have ne: "filter (\<lambda>r. rt_movie r = mv_id m) (db_ratings db) \<noteq> []"
    using mem go by auto
  have "g_movieId g = mv_id m" using mem m(2) by simp
  moreover have "g_title g = mv_title m \<and> g_genre g = mv_genre m"
    using mem ne unfolding go by (simp add: hd_map)
  moreover have "g_voteCount g = votes_for db (mv_id m)"
    using mem unfolding go votes_for_def by simp
  moreover have "0 < votes_for db (mv_id m)"
    using ne unfolding votes_for_def by simp
  moreover have "g_avgRating g = mean (scores_for db (mv_id m))"
    using mem unfolding go mean_def scores_for_def by (simp add: comp_def)
  ultimately show ?thesis using m by blast
qed



lemma set_ranked:
  "set (ranked_groups E genreRegex minVotes limit db)
     \<subseteq> {g \<in> set (group_stage (joined_docs E genreRegex db)). minVotes \<le> int (g_voteCount g)}"
  unfolding ranked_groups_def limit_stage_def sort_stage_def match_votes_stage_def
  using set_take_subset [of "nat limit"] by fastforce

lemma distinct_ranked: "distinct (map g_id (ranked_groups E genreRegex minVotes limit db))"
proof -
  have "distinct (map g_id (match_votes_stage minVotes (group_stage (joined_docs E genreRegex db))))"
    unfolding match_votes_stage_def using group_stage_distinct by (rule distinct_map_filter)
  then have "distinct (map g_id (sort_stage (match_votes_stage minVotes (group_stage (joined_docs E genreRegex db)))))"
    unfolding sort_stage_def
    by (metis distinct_map distinct_sort set_sort)
  then show ?thesis
    unfolding ranked_groups_def limit_stage_def by (simp add: take_map [symmetric] distinct_take)
qed

lemma length_ranked_limit: "int (length (ranked_groups E genreRegex minVotes limit db)) \<le> max 0 limit"
  unfolding ranked_groups_def limit_stage_def by simp

lemma length_ranked_eligible:
  assumes d: "distinct (map mv_id (db_movies db))"
  shows "length (ranked_groups E genreRegex minVotes limit db)
           \<le> length (eligible_movies E genreRegex minVotes db)"
proof -
  let ?gs = "ranked_groups E genreRegex minVotes limit db"
  have "g_id ` set ?gs \<subseteq> mv_id ` set (eligible_movies E genreRegex minVotes db)"
  proof
    fix k assume "k \<in> g_id ` set ?gs"
    then obtain g where g: "g \<in> set ?gs" "k = g_id g" by blast
    with set_ranked have gg: "g \<in> set (group_stage (joined_docs E genreRegex db))"
      and v: "minVotes \<le> int (g_voteCount g)" by blast+
    from group_joined_member [OF d gg] obtain m where
      "m \<in> set (db_movies db)" "mv_id m = g_id g" "passes_genre E genreRegex m"
      "g_voteCount g = votes_for db (mv_id m)" "0 < votes_for db (mv_id m)" by blast
    with v g show "k \<in> mv_id ` set (eligible_movies E genreRegex minVotes db)"
      unfolding eligible_movies_def by force
  qed
  then have "card (g_id ` set ?gs) \<le> card (mv_id ` set (eligible_movies E genreRegex minVotes db))"
    by (simp add: card_mono)
  also have "\<dots> \<le> length (eligible_movies E genreRegex minVotes db)"
    by (metis card_image_le card_length le_trans List.finite_set)
  finally have "card (g_id ` set ?gs) \<le> length (eligible_movies E genreRegex minVotes db)" .
  moreover have "card (g_id ` set ?gs) = length ?gs"
    using distinct_card [OF distinct_ranked [of E genreRegex minVotes limit db]] by simp
  ultimately show ?thesis by simp
qed



section \<open>Auxiliary facts about doubles\<close>

lemma binade_bounds:
  assumes "0 < x"
  shows "2 powi binade x \<le> x \<and> x < 2 powi (binade x + 1)"
proof -
  obtain p q where pq: "quotient_of x = (p, q)" by (cases "quotient_of x")
  then have q: "0 < q" and x: "x = of_int p / of_int q"
    using quotient_of_denom_pos quotient_of_div by blast+
  with assms have p: "0 < p"
    by (simp add: zero_less_divide_iff)
  define a b where "a = nat (bitlen p)" and "b = nat (bitlen q)"
  have bp: "bitlen p = int a" and bq: "bitlen q = int b"
    by (simp_all add: a_def b_def bitlen_nonneg)
  have "1 \<le> bitlen p" using p compute_bitlen [of p] bitlen_nonneg [of "p div 2"] by simp
  then have a1: "1 \<le> a" by (simp add: a_def)
  have "1 \<le> bitlen q" using q compute_bitlen [of q] bitlen_nonneg [of "q div 2"] by simp
  then have b1: "1 \<le> b" by (simp add: b_def)
  have na: "nat (bitlen p - 1) = a - 1" and nb: "nat (bitlen q - 1) = b - 1"
    unfolding bp bq by simp_all
  from bitlen_bounds [OF p] have pa: "2 ^ (a - 1) \<le> p" "p < 2 ^ a"
    unfolding na by (simp_all add: a_def)
  from bitlen_bounds [OF q] have qb: "2 ^ (b - 1) \<le> q" "q < 2 ^ b"
    unfolding nb by (simp_all add: b_def)
  have rp: "(2::rat) ^ (a - 1) \<le> of_int p" "(of_int p :: rat) < 2 ^ a"
    using pa by (metis of_int_le_iff of_int_numeral of_int_power, metis of_int_less_iff of_int_numeral of_int_power)
  have rq: "(2::rat) ^ (b - 1) \<le> of_int q" "(of_int q :: rat) < 2 ^ b"
    using qb by (metis of_int_le_iff of_int_numeral of_int_power, metis of_int_less_iff of_int_numeral of_int_power)
  define e where "e = int a - int b"
  have up: "x < 2 powi (e + 1)"
  proof -
    have "x < 2 ^ a / 2 ^ (b - 1)"
      unfolding x using rp rq p q by (intro frac_less) simp_all
    also have "\<dots> = 2 powi (int a - int (b - 1))"
      by (simp add: power_int_diff)
    also have "int a - int (b - 1) = e + 1"
      using b1 by (simp add: e_def)
    finally show ?thesis .
  qed
  have lo: "2 powi (e - 1) \<le> x"
  proof -
    have ee: "e - 1 = int (a - 1) - int b"
      using a1 by (simp add: e_def)
    have "2 powi (e - 1) = (2::rat) powi (int (a - 1) - int b)"
      unfolding ee ..
    also have "\<dots> = 2 ^ (a - 1) / 2 ^ b"
      by (simp add: power_int_diff)
    also have "\<dots> \<le> x"
      unfolding x using rp rq p q by (intro frac_le) simp_all
    finally show ?thesis .
  qed
  have "binade x = (if 2 powi e \<le> x then e else e - 1)"
    by (simp add: binade_def pq bp bq e_def)
  with up lo show ?thesis
    by (auto simp: not_le)
qed

lemma round_half_even_of_int: "round_half_even (of_int k) = k"
  by (simp add: round_half_even_def)

lemma round_half_even_cases:
  obtains f d where "y = of_int f + d" "0 \<le> d" "d < 1"
    "round_half_even y = (if d < 1 / 2 then f else if 1 / 2 < d then f + 1
                          else if even f then f else f + 1)"
proof -
  define f where "f = \<lfloor>y\<rfloor>"
  define d where "d = y - of_int f"
  have "y = of_int f + d" by (simp add: d_def)
  moreover have "0 \<le> d" "d < 1" unfolding d_def f_def by linarith+
  moreover have "round_half_even y = (if d < 1 / 2 then f else if 1 / 2 < d then f + 1
                          else if even f then f else f + 1)"
    by (simp add: round_half_even_def Let_def f_def d_def)
  ultimately show thesis by (rule that)
qed

lemma round_half_even_error: "\<bar>of_int (round_half_even y) - y\<bar> \<le> 1 / 2"
proof -
  obtain f d where c: "y = of_int f + d" "0 \<le> d" "d < 1"
    "round_half_even y = (if d < 1 / 2 then f else if 1 / 2 < d then f + 1
                          else if even f then f else f + 1)"
    by (rule round_half_even_cases)
  consider "d < 1 / 2" | "1 / 2 < d" | "d = 1 / 2" by linarith
  then show ?thesis
  proof cases
    case 1
    with c show ?thesis by simp
  next
    case 2
    with c show ?thesis by simp
  next
    case 3
    with c show ?thesis by simp
  qed
qed


lemma nearest_double_error:
  "\<bar>nearest_double x - x\<bar> \<le> 2 powi (max (binade x - 52) (- 1074)) / 2"
proof -
  define q where "q = max (binade x - 52) (- 1074)"
  have pos: "(0::rat) < 2 powi q" by simp
  have "nearest_double x - x = (of_int (round_half_even (x / 2 powi q)) - x / 2 powi q) * 2 powi q"
    using pos by (simp add: nearest_double_def Let_def q_def [symmetric] algebra_simps)
  then have "\<bar>nearest_double x - x\<bar> = \<bar>of_int (round_half_even (x / 2 powi q)) - x / 2 powi q\<bar> * 2 powi q"
    using pos by (simp add: abs_mult)
  also have "\<dots> \<le> 1 / 2 * 2 powi q"
    using round_half_even_error [of "x / 2 powi q"] pos by (intro mult_right_mono) simp_all
  finally show ?thesis by (simp add: q_def)
qed

lemma nearest_double_int:
  assumes "1 \<le> n"
  shows "nearest_double (of_int n) \<in> \<int>"
    and "n \<le> 2 ^ 53 \<Longrightarrow> nearest_double (of_int n) = of_int n"
proof -
  let ?x = "of_int n :: rat"
  have x: "0 < ?x" using assms by simp
  define e where "e = binade ?x"
  from binade_bounds [OF x] have b: "2 powi e \<le> ?x" "?x < 2 powi (e + 1)"
    by (simp_all add: e_def)
  have e0: "0 \<le> e"
  proof (rule ccontr)
    assume "\<not> 0 \<le> e"
    then have "e + 1 \<le> 0" by simp
    then have "(2::rat) powi (e + 1) \<le> 2 powi 0"
      by (intro power_int_increasing) simp_all
    with b(2) have "?x < 1" by simp
    with assms show False by simp
  qed
  define q where "q = max (e - 52) (- 1074)"
  have q: "q = e - 52" using e0 by (simp add: q_def)
  have nd: "nearest_double ?x = of_int (round_half_even (?x / 2 powi q)) * 2 powi q"
    by (simp add: nearest_double_def Let_def q_def e_def)
  have exact: "nearest_double ?x = ?x" if "q \<le> 0"
  proof -
    have "(2::rat) powi q = inverse (2 powi (- q))"
      using power_int_minus [of "2::rat" "- q"] by simp
    also have "2 powi (- q) = (2::rat) ^ nat (- q)"
      using that by (simp add: power_int_def)
    finally have inv: "(2::rat) powi q = inverse (2 ^ nat (- q))" .
    then have "?x / 2 powi q = of_int (n * 2 ^ nat (- q))"
      by (simp add: divide_inverse)
    then show ?thesis
      unfolding nd by (simp only: round_half_even_of_int) (simp add: inv)
  qed
  show "nearest_double ?x \<in> \<int>"
  proof (cases "q \<le> 0")
    case True
    with exact show ?thesis by simp
  next
    case False
    then have "(2::rat) powi q = of_int (2 ^ nat q)"
      by (simp add: power_int_def)
    then show ?thesis unfolding nd by (metis Ints_of_int of_int_mult)
  qed
  show "nearest_double ?x = ?x" if le: "n \<le> 2 ^ 53"
  proof (cases "q \<le> 0")
    case True
    with exact show ?thesis by simp
  next
    case False
    then have "53 \<le> e" by (simp add: q)
    then have "(2::rat) powi 53 \<le> 2 powi e"
      by (intro power_int_increasing) simp_all
    with b(1) have "(2::rat) ^ 53 \<le> ?x" by simp
    then have "2 ^ 53 \<le> n"
      by (metis of_int_le_iff of_int_numeral of_int_power)
    with le have n: "n = 2 ^ 53" by simp
    have "?x < 2 powi 54" unfolding n by simp
    have "e < 54"
    proof (rule ccontr)
      assume "\<not> e < 54"
      then have "(2::rat) powi 54 \<le> 2 powi e"
        by (intro power_int_increasing) simp_all
      with b(1) \<open>?x < 2 powi 54\<close> show False by simp
    qed
    with \<open>53 \<le> e\<close> have "q = 1" by (simp add: q)
    have half: "?x / 2 = of_int (2 ^ 52)" unfolding n by simp
    have "nearest_double ?x = of_int (round_half_even (?x / 2)) * 2"
      unfolding nd \<open>q = 1\<close> by simp
    also have "\<dots> = of_int (2 ^ 52) * 2"
      unfolding half round_half_even_of_int ..
    also have "\<dots> = ?x" unfolding n by simp
    finally show ?thesis .
  qed
qed

lemma round_half_even_nonneg:
  assumes "0 \<le> y"
  shows "0 \<le> round_half_even y"
proof -
  obtain f d where c: "y = of_int f + d" "0 \<le> d" "d < 1"
    "round_half_even y = (if d < 1 / 2 then f else if 1 / 2 < d then f + 1
                          else if even f then f else f + 1)"
    by (rule round_half_even_cases)
  from assms c(1,3) have "- 1 < (of_int f :: rat)" by linarith
  then have "- 1 < f" by (metis of_int_less_iff of_int_minus of_int_1)
  with c(4) show ?thesis by (simp split: if_splits)
qed

lemma nearest_double_nonneg:
  assumes "0 \<le> x"
  shows "0 \<le> nearest_double x"
proof -
  define q where "q = max (binade x - 52) (- 1074)"
  have "0 \<le> x / 2 powi q" using assms by simp
  then have "0 \<le> round_half_even (x / 2 powi q)" by (rule round_half_even_nonneg)
  then show ?thesis by (simp add: nearest_double_def Let_def q_def)
qed

lemma toDouble_int_exact:
  assumes "\<bar>n\<bar> \<le> 2 ^ 53"
  shows "toDouble (of_int n) = Finite (of_int n)"
proof (cases "n = 0")
  case True
  then show ?thesis by (simp add: toDouble_def)
next
  case False
  then have one: "1 \<le> \<bar>n\<bar>" by simp
  have abs: "\<bar>of_int n :: rat\<bar> = of_int \<bar>n\<bar>" by simp
  have nd: "nearest_double \<bar>of_int n\<bar> = of_int \<bar>n\<bar>"
    unfolding abs using nearest_double_int(2) [OF one] assms by simp
  have "(of_int \<bar>n\<bar> :: rat) \<le> 2 ^ 53"
    using assms by (metis of_int_le_iff of_int_numeral of_int_power)
  also have "\<dots> < 2 ^ 1024"
    by (rule power_strict_increasing) simp_all
  finally have small: "\<not> (2::rat) ^ 1024 \<le> of_int \<bar>n\<bar>" by (simp only: not_le)
  have "toDouble (of_int n) = Finite (if 0 < (of_int n :: rat) then of_int \<bar>n\<bar> else - of_int \<bar>n\<bar>)"
    unfolding toDouble_def Let_def nd using False small by (simp only: of_int_eq_0_iff if_False)
  also have "(if 0 < (of_int n :: rat) then of_int \<bar>n\<bar> else - of_int \<bar>n\<bar>) = (of_int n :: rat)"
    by (simp add: abs_if)
  finally show ?thesis .
qed

lemma toDouble_cases:
  obtains "x = 0" "toDouble x = Finite 0"
  | "x \<noteq> 0" "2 ^ 1024 \<le> nearest_double \<bar>x\<bar>" "toDouble x = (if 0 < x then PosInfinity else NegInfinity)"
  | "x \<noteq> 0" "nearest_double \<bar>x\<bar> < 2 ^ 1024"
      "toDouble x = Finite (if 0 < x then nearest_double \<bar>x\<bar> else - nearest_double \<bar>x\<bar>)"
proof (cases "x = 0")
  case True
  then have "toDouble x = Finite 0" unfolding toDouble_def by simp
  with True show thesis by (rule that(1))
next
  case False
  show thesis
  proof (cases "2 ^ 1024 \<le> nearest_double \<bar>x\<bar>")
    case True
    with False have "toDouble x = (if 0 < x then PosInfinity else NegInfinity)"
      unfolding toDouble_def Let_def by simp
    with False True show thesis by (rule that(2))
  next
    case nb: False
    with False have "toDouble x = Finite (if 0 < x then nearest_double \<bar>x\<bar> else - nearest_double \<bar>x\<bar>)"
      unfolding toDouble_def Let_def by simp
    moreover from nb have "nearest_double \<bar>x\<bar> < 2 ^ 1024" by (simp only: not_le)
    ultimately show thesis using False by (intro that(3))
  qed
qed

lemma toDouble_int_Ints:
  assumes "toDouble (of_int n) = Finite y"
  shows "y \<in> \<int>"
proof -
  have abs: "\<bar>of_int n :: rat\<bar> = of_int \<bar>n\<bar>" by simp
  show ?thesis
  proof (cases "of_int n :: rat" rule: toDouble_cases)
    case 1
    with assms show ?thesis by simp
  next
    case 2
    with assms show ?thesis by (simp split: if_splits)
  next
    case 3
    then have "n \<noteq> 0" by simp
    then have one: "1 \<le> \<bar>n\<bar>" by simp
    have "nearest_double \<bar>of_int n\<bar> \<in> \<int>"
      unfolding abs using nearest_double_int(1) [OF one] .
    with assms 3(3) show ?thesis by (auto split: if_splits)
  qed
qed

lemma toDouble_Finite_bound:
  assumes "toDouble x = Finite y"
  shows "\<bar>y\<bar> < 2 ^ 1024"
proof (cases x rule: toDouble_cases)
  case 1
  with assms have "y = 0" by simp
  then show ?thesis by (simp only: abs_zero zero_less_power zero_less_numeral)
next
  case 2
  with assms show ?thesis by (simp split: if_splits)
next
  case 3
  have "0 \<le> nearest_double \<bar>x\<bar>" by (rule nearest_double_nonneg) simp
  then have "\<bar>nearest_double \<bar>x\<bar>\<bar> = nearest_double \<bar>x\<bar>" by simp
  moreover from assms 3(3) have "\<bar>y\<bar> = \<bar>nearest_double \<bar>x\<bar>\<bar>" by (auto split: if_splits)
  ultimately show ?thesis using 3(2) by (simp only:)
qed

lemma nearest_double_quotient:
  fixes a c :: int
  assumes a: "0 < a" "a < 2 ^ 53" and c: "0 < c" "of_int c < (2::rat) ^ 1024"
    and nonint: "of_int a / of_int c \<notin> (\<int> :: rat set)"
  shows "of_int \<lfloor>of_int a / of_int c :: rat\<rfloor> < nearest_double (of_int a / of_int c)
       \<and> nearest_double (of_int a / of_int c) < of_int \<lfloor>of_int a / of_int c :: rat\<rfloor> + 1"
proof -
  define x :: rat where "x = of_int a / of_int c"
  define n where "n = \<lfloor>x\<rfloor>"
  have xpos: "0 < x" using a c by (simp add: x_def)
  have cx: "of_int c * x = of_int a" using c by (simp add: x_def)
  have nx: "of_int n < x"
  proof -
    have "of_int n \<le> x" unfolding n_def by linarith
    moreover have "of_int n \<noteq> x" using nonint unfolding x_def [symmetric] by (metis Ints_of_int)
    ultimately show ?thesis by simp
  qed
  have xn: "x < of_int n + 1" unfolding n_def by linarith
  have lo: "1 / of_int c \<le> x - of_int n"
  proof -
    have "(0::rat) < of_int c * (x - of_int n)" using nx c by simp
    also have "of_int c * (x - of_int n) = of_int (a - c * n)"
      using cx by (simp add: algebra_simps)
    finally have "0 < a - c * n" by (simp only: of_int_0_less_iff)
    then have "1 \<le> a - c * n" by simp
    then have "(1::rat) \<le> of_int (a - c * n)" by (simp only: of_int_1_le_iff)
    also have "of_int (a - c * n) = of_int c * (x - of_int n)"
      using cx by (simp add: algebra_simps)
    finally show ?thesis using c by (simp add: field_simps)
  qed
  have hi: "1 / of_int c \<le> of_int n + 1 - x"
  proof -
    have "(0::rat) < of_int c * (of_int n + 1 - x)" using xn c by simp
    also have "of_int c * (of_int n + 1 - x) = of_int (c * n + c - a)"
      using cx by (simp add: algebra_simps)
    finally have "0 < c * n + c - a" by (simp only: of_int_0_less_iff)
    then have "1 \<le> c * n + c - a" by simp
    then have "(1::rat) \<le> of_int (c * n + c - a)" by (simp only: of_int_1_le_iff)
    also have "of_int (c * n + c - a) = of_int c * (of_int n + 1 - x)"
      using cx by (simp add: algebra_simps)
    finally show ?thesis using c by (simp add: field_simps)
  qed
  define q where "q = max (binade x - 52) (- 1074)"
  have err: "\<bar>nearest_double x - x\<bar> \<le> 2 powi q / 2"
    unfolding q_def by (rule nearest_double_error)
  have small: "2 powi q / 2 < 1 / (of_int c :: rat)"
  proof (cases "- 1074 \<le> binade x - 52")
    case True
    then have q: "q = binade x - 52" by (simp add: q_def)
    have "(2::rat) powi q = 2 powi binade x / 2 ^ 52"
      unfolding q by (simp add: power_int_diff)
    also have "\<dots> \<le> x / 2 ^ 52"
      using binade_bounds [OF xpos] by (simp add: divide_right_mono)
    finally have "(2::rat) powi q / 2 \<le> x / 2 ^ 52 / 2"
      by (simp add: divide_right_mono)
    also have "\<dots> = of_int a / 2 ^ 53 / of_int c"
      by (simp add: x_def)
    also have "\<dots> < 1 / of_int c"
    proof -
      have "(of_int a :: rat) < 2 ^ 53"
        using a(2) by (metis of_int_less_iff of_int_numeral of_int_power)
      then have "(of_int a :: rat) / 2 ^ 53 < 1" by simp
      moreover have "(0::rat) < of_int c" using c(1) by simp
      ultimately show ?thesis by (rule divide_strict_right_mono)
    qed
    finally show ?thesis .
  next
    case False
    then have q: "q = - 1074" by (simp add: q_def)
    have "(2::rat) powi (- 1074 - 1) = 2 powi (- 1074) / 2 powi 1"
      by (rule power_int_diff) simp
    then have "(2::rat) powi q / 2 = 2 powi (- 1075)"
      unfolding q by simp
    also have "\<dots> \<le> 2 powi (- 1024)"
      by (rule power_int_increasing) simp_all
    also have "(2::rat) powi (- 1024) = inverse (2 powi 1024)"
      by (rule power_int_minus)
    also have "\<dots> = 1 / 2 ^ 1024"
      by (simp only: power_int_numeral inverse_eq_divide)
    also have "\<dots> < 1 / of_int c"
    proof (rule divide_strict_left_mono [OF c(2)])
      show "(0::rat) < 1" by simp
      have "(0::rat) < of_int c" using c(1) by simp
      then show "(0::rat) < 2 ^ 1024 * of_int c" by (simp only: zero_less_mult_iff zero_less_power zero_less_numeral simp_thms)
    qed
    finally show ?thesis .
  qed
  from err small lo have "of_int n < nearest_double x" by arith
  moreover from err small hi have "nearest_double x < of_int n + 1" by arith
  ultimately show ?thesis unfolding x_def n_def by simp
qed

lemma toDouble_quotient_ceiling:
  fixes a :: nat and l :: rat
  assumes a: "a < 2 ^ 53" and l: "l \<in> \<int>" "l \<noteq> 0" "\<bar>l\<bar> < 2 ^ 1024"
  shows "\<exists>y. toDouble (of_nat a / l) = Finite y \<and> \<lceil>y\<rceil> = \<lceil>of_nat a / l\<rceil>"
proof (cases "of_nat a / l \<in> \<int>")
  case True
  then obtain k :: int where k: "of_nat a / l = of_int k" by (auto elim: Ints_cases)
  from l obtain c :: int where c: "l = of_int c" by (auto elim: Ints_cases)
  have c1: "1 \<le> \<bar>c\<bar>" using l(2) c by simp
  have "\<bar>of_int k :: rat\<bar> = of_nat a / \<bar>of_int c\<bar>"
    using k c by (simp flip: k)
  also have "\<dots> \<le> of_nat a / 1"
    using c1 by (intro divide_left_mono) simp_all
  finally have "\<bar>of_int k :: rat\<bar> \<le> of_int (int a)" by simp
  then have "\<bar>k\<bar> \<le> int a" by (metis of_int_abs of_int_le_iff)
  also have "int a \<le> 2 ^ 53" using a by (metis less_imp_le of_nat_le_iff of_nat_numeral of_nat_power)
  finally have "toDouble (of_int k) = Finite (of_int k)" by (rule toDouble_int_exact)
  then show ?thesis unfolding k by simp
next
  case False
  from l obtain c :: int where c: "l = of_int c" by (auto elim: Ints_cases)
  have c0: "c \<noteq> 0" using l(2) c by simp
  define z :: rat where "z = of_nat a / l"
  have zn: "z \<notin> \<int>" unfolding z_def by (rule False)
  have z0: "z \<noteq> 0"
  proof
    assume "z = 0"
    then have "z \<in> \<int>" by (simp only: Ints_0)
    with zn show False ..
  qed
  then have a0: "a \<noteq> 0" by (auto simp: z_def)
  define a' where "a' = int a"
  define c' where "c' = \<bar>c\<bar>"
  have a': "0 < a'" "a' < 2 ^ 53"
    using a0 a by (simp_all add: a'_def)
  have c': "0 < c'" using c0 by (simp add: c'_def)
  have cb: "(of_int c' :: rat) < 2 ^ 1024"
    using l(3) by (simp add: c c'_def)
  define x :: rat where "x = of_int a' / of_int c'"
  have ax: "\<bar>z\<bar> = x"
    by (simp add: z_def x_def a'_def c'_def c)
  have xpos: "0 < x" using a' c' by (simp add: x_def)
  have nonint: "x \<notin> \<int>"
  proof
    assume "x \<in> \<int>"
    then have "\<bar>z\<bar> \<in> \<int>" by (simp only: ax)
    then have "z \<in> \<int>"
      by (cases "0 \<le> z") (auto simp: abs_if dest: Ints_minus)
    with zn show False ..
  qed
  define n where "n = \<lfloor>x\<rfloor>"
  from nearest_double_quotient [OF a' c' cb nonint [unfolded x_def]]
  have nd: "of_int n < nearest_double x" "nearest_double x < of_int n + 1"
    by (simp_all add: x_def n_def)
  have nx: "of_int n < x" "x < of_int n + 1"
  proof -
    have "of_int n \<le> x" unfolding n_def by linarith
    moreover have "of_int n \<noteq> x" using nonint by (metis Ints_of_int)
    ultimately show "of_int n < x" by simp
    show "x < of_int n + 1" unfolding n_def by linarith
  qed
  have "x \<le> of_int a' / 1"
    unfolding x_def using c' a' by (intro divide_left_mono) simp_all
  then have "of_int n < (of_int a' :: rat)" using nx(1) by simp
  then have "n < a'" by (simp only: of_int_less_iff)
  then have "n + 1 \<le> 2 ^ 53" using a'(2) by simp
  then have "(of_int (n + 1) :: rat) \<le> 2 ^ 53"
    by (metis of_int_le_iff of_int_numeral of_int_power)
  also have "(2::rat) ^ 53 < 2 ^ 1024" by (rule power_strict_increasing) simp_all
  finally have "nearest_double x < 2 ^ 1024" using nd(2) by simp
  then have nb: "\<not> 2 ^ 1024 \<le> nearest_double x" by (simp only: not_le)
  have td: "toDouble z = Finite (if 0 < z then nearest_double x else - nearest_double x)"
    using z0 nb unfolding toDouble_def Let_def ax by simp
  have "\<exists>y. toDouble z = Finite y \<and> \<lceil>y\<rceil> = \<lceil>z\<rceil>"
  proof (cases "0 < z")
    case True
    with ax have "z = x" by arith
    moreover have "\<lceil>nearest_double x\<rceil> = n + 1"
      using nd by (intro ceiling_unique) simp_all
    moreover have "\<lceil>x\<rceil> = n + 1"
      using nx by (intro ceiling_unique) simp_all
    ultimately show ?thesis using td True by simp
  next
    case neg: False
    with z0 ax have "z = - x" by arith
    moreover have "\<lceil>- nearest_double x\<rceil> = - n"
      using nd by (intro ceiling_unique) simp_all
    moreover have "\<lceil>- x\<rceil> = - n"
      using nx by (intro ceiling_unique) simp_all
    ultimately show ?thesis using td neg by simp
  qed
  then show ?thesis by (simp only: z_def)
qed

section \<open>Auxiliary facts about the service\<close>

lemma getTopRated_limit_range: "1 \<le> getTopRated_limit q \<and> getTopRated_limit q \<le> 50"
  by (simp add: getTopRated_limit_def)

lemma top_row_identity:
  "map (\<lambda>r. \<lparr>r_movieId = r_movieId r, r_title = r_title r, r_genre = r_genre r,
              r_avgRating = r_avgRating r, r_voteCount = r_voteCount r\<rparr>) rows = rows"
  by (induction rows) simp_all

lemma getTopRated_eq:
  "getTopRated E now db q =
     (case getTopRated_genreRegex E (getTopRated_genre q) of
        Inl e \<Rightarrow> Inl e
      | Inr re \<Rightarrow>
          Inr \<lparr>t_data = map project_stage
                   (ranked_groups E re (getTopRated_minVotes q) (getTopRated_limit q) db),
               t_meta = \<lparr>m_generatedAt = now, m_limit = getTopRated_limit q,
                         m_minVotes = getTopRated_minVotes q,
                         m_genre = (if getTopRated_genre q \<noteq> [] then Some (getTopRated_genre q)
                                    else None)\<rparr>\<rparr>)"
proof -
  have "\<not> getTopRated_limit q \<le> 0"
    using getTopRated_limit_range [of q] by simp
  then show ?thesis
    unfolding getTopRated_def getTopRatedAggregates_def
    by (simp add: Let_def top_row_identity split: sum.splits)
qed

lemma or_default_parse:
  "or_default (parseInt (nullish x d) (Some 10)) k =
     (case x of None \<Rightarrow> or_default (parseInt d (Some 10)) k
      | Some s \<Rightarrow> (case parseInt s (Some 10) of None \<Rightarrow> k | Some n \<Rightarrow> if n = 0 then k else n))"
  by (simp add: or_default_def nullish_def split: option.splits)

lemmas parse_eval = parseInt_def isWhiteSpace_def digitValue_def or_default_def nullish_def

lemma trim_blank:
  assumes "list_all isWhiteSpace s"
  shows "trim s = []"
proof -
  have blank: "dropWhile isWhiteSpace s = []"
    using assms by (induction s) simp_all
  show ?thesis unfolding trim_def blank by simp
qed

lemma joined_docs_drop_unresolved:
  assumes "rt_movie r \<notin> mv_id ` set ms"
  shows "joined_docs E re \<lparr>db_movies = ms, db_ratings = rs1 @ r # rs2\<rparr>
       = joined_docs E re \<lparr>db_movies = ms, db_ratings = rs1 @ rs2\<rparr>"
proof -
  have "\<forall>m\<in>set ms. \<not> (mv_id m = rt_movie r \<and> passes_genre E re m)"
    using assms by force
  then have "filter (\<lambda>m. mv_id m = rt_movie r \<and> passes_genre E re m) ms = []"
    by (simp add: filter_empty_conv)
  then show ?thesis
    unfolding joined_docs_eq by simp
qed




lemma joined_docs_movie:
  "d \<in> set (joined_docs E re db) \<Longrightarrow> snd d \<in> set (db_movies db)"
  unfolding joined_docs_eq by auto

lemma joined_docs_match:
  "joined_docs E (Some re) db = filter (\<lambda>(r, m). genre_matches E re m) (joined_docs E None db)"
  by (simp add: joined_docs_def match_genre_stage_def)

lemma parseInt_undefined: "parseInt ''undefined'' None = None"
  by (simp add: parseInt_def isWhiteSpace_def digitValue_def)

subsection \<open>The groups that are kept, and the rounding of the projection\<close>







subsection \<open>The numbers of the listing\<close>

lemma toDouble_not_NaN: "toDouble x \<noteq> NaN"
  by (cases x rule: toDouble_cases) (simp_all split: if_splits)

lemma binade_nonneg:
  assumes "1 \<le> x"
  shows "0 \<le> binade x"
proof (rule ccontr)
  assume "\<not> 0 \<le> binade x"
  then have "binade x + 1 \<le> 0" by simp
  then have "(2::rat) powi (binade x + 1) \<le> 2 powi 0"
    by (intro power_int_increasing) simp_all
  moreover from assms have "0 < x" by simp
  from binade_bounds [OF this] have "x < 2 powi (binade x + 1)" by simp
  ultimately have "x < 1" by simp
  with assms show False by simp
qed

lemma nearest_double_pos:
  assumes "1 \<le> x"
  shows "0 < nearest_double x"
proof -
  from assms have xpos: "0 < x" by simp
  define q where "q = max (binade x - 52) (- 1074)"
  have q: "q = binade x - 52" using binade_nonneg [OF assms] by (simp add: q_def)
  have "(2::rat) powi q = 2 powi binade x / 2 ^ 52"
    unfolding q by (simp add: power_int_diff)
  also have "\<dots> \<le> x / 2 ^ 52"
    using binade_bounds [OF xpos] by (simp add: divide_right_mono)
  finally have "(2::rat) powi q / 2 \<le> x / 2 ^ 52 / 2"
    by (simp add: divide_right_mono)
  also have "\<dots> < x" using xpos by simp
  finally have small: "(2::rat) powi q / 2 < x" .
  have "\<bar>nearest_double x - x\<bar> \<le> 2 powi q / 2"
    unfolding q_def by (rule nearest_double_error)
  with small show ?thesis by arith
qed

lemma toDouble_int_zero_iff: "toDouble (of_int n) = Finite 0 \<longleftrightarrow> n = 0"
proof
  assume z: "toDouble (of_int n) = Finite 0"
  show "n = 0"
  proof (rule ccontr)
    assume "n \<noteq> 0"
    then have "1 \<le> \<bar>n\<bar>" by simp
    then have "(1::rat) \<le> of_int \<bar>n\<bar>" by (simp only: of_int_1_le_iff)
    then have "(1::rat) \<le> \<bar>of_int n\<bar>" by simp
    then have "0 < nearest_double \<bar>of_int n\<bar>" by (rule nearest_double_pos)
    with z \<open>n \<noteq> 0\<close> show False
      by (cases "of_int n :: rat" rule: toDouble_cases) (auto split: if_splits)
  qed
next
  assume "n = 0"
  then show "toDouble (of_int n) = Finite 0" by (simp add: toDouble_def)
qed

lemma getAllMovies_page_eq:
  "getAllMovies_page q =
     (case lq_page q of
        None \<Rightarrow> Finite 1
      | Some s \<Rightarrow> (case parseInt s None of
                    None \<Rightarrow> Finite 1
                  | Some n \<Rightarrow> if n = 0 then Finite 1 else toDouble (of_int n)))"
  by (simp add: getAllMovies_page_def parseInt_number_def parseInt_param_def nullish_def
      Number_def or_number_def parseInt_undefined toDouble_not_NaN toDouble_int_zero_iff
      split: option.splits)

lemma getAllMovies_limit_eq:
  "getAllMovies_limit q =
     (case lq_limit q of
        None \<Rightarrow> Finite 10
      | Some s \<Rightarrow> (case parseInt s None of
                    None \<Rightarrow> Finite 10
                  | Some n \<Rightarrow> if n = 0 then Finite 10
                             else Math_min (toDouble (of_int n)) (Finite 100)))"
  by (simp add: getAllMovies_limit_def parseInt_number_def parseInt_param_def nullish_def
      Number_def or_number_def parseInt_undefined toDouble_not_NaN toDouble_int_zero_iff
      split: option.splits)

lemma Math_min_100_shape:
  assumes "x = toDouble (of_int n)" "n \<noteq> 0"
  shows "Math_min x (Finite 100) = NegInfinity
       \<or> (\<exists>l. Math_min x (Finite 100) = Finite l \<and> l \<le> 100 \<and> l \<noteq> 0 \<and> l \<in> \<int>
              \<and> \<bar>l\<bar> < 2 ^ 1024)"
proof (cases x)
  case (Finite y)
  with assms have y: "toDouble (of_int n) = Finite y" by simp
  then have yi: "y \<in> \<int>" by (rule toDouble_int_Ints)
  from y have yb: "\<bar>y\<bar> < 2 ^ 1024" by (rule toDouble_Finite_bound)
  from y assms(2) have y0: "y \<noteq> 0" using toDouble_int_zero_iff [of n] by auto
  have m: "Math_min x (Finite 100) = Finite (min y 100)" by (simp add: Finite)
  have "min y 100 \<in> \<int>" using yi by (simp add: min_def)
  moreover have "min y 100 \<noteq> 0" using y0 by (simp add: min_def)
  moreover have "min y 100 \<le> 100" by simp
  moreover have "\<bar>min y 100\<bar> < 2 ^ 1024"
  proof (cases "y \<le> 100")
    case True
    then show ?thesis using yb by (simp only: min_absorb1)
  next
    case False
    then have "min y 100 = 100" by simp
    moreover have "(100::rat) < 2 ^ 7" by simp
    moreover have "(2::rat) ^ 7 < 2 ^ 1024" by (rule power_strict_increasing) simp_all
    ultimately show ?thesis by simp
  qed
  ultimately show ?thesis using m by blast
next
  case PosInfinity
  have "(100::rat) < 2 ^ 7" by simp
  moreover have "(2::rat) ^ 7 < 2 ^ 1024" by (rule power_strict_increasing) simp_all
  ultimately have "\<bar>100::rat\<bar> < 2 ^ 1024" by simp
  then show ?thesis by (auto simp: PosInfinity)
next
  case NegInfinity
  then show ?thesis by simp
next
  case NaN
  with assms(1) have "toDouble (of_int n) = NaN" by simp
  with toDouble_not_NaN [of "of_int n"] show ?thesis by simp
qed

lemma getAllMovies_limit_shape:
  "getAllMovies_limit q = NegInfinity
   \<or> (\<exists>l. getAllMovies_limit q = Finite l \<and> l \<le> 100 \<and> l \<noteq> 0 \<and> l \<in> \<int> \<and> \<bar>l\<bar> < 2 ^ 1024)"
proof -
  have ten: "\<exists>l. Finite 10 = Finite l \<and> l \<le> 100 \<and> l \<noteq> 0 \<and> l \<in> \<int> \<and> \<bar>l\<bar> < 2 ^ 1024"
  proof -
    have "(10::rat) < 2 ^ 4" by simp
    moreover have "(2::rat) ^ 4 < 2 ^ 1024" by (rule power_strict_increasing) simp_all
    ultimately have "\<bar>10::rat\<bar> < 2 ^ 1024" by simp
    then show ?thesis by simp
  qed
  show ?thesis
  proof (cases "lq_limit q")
    case None
    with ten show ?thesis by (simp add: getAllMovies_limit_eq)
  next
    case (Some s)
    show ?thesis
    proof (cases "parseInt s None")
      case None
      with Some ten show ?thesis by (simp add: getAllMovies_limit_eq)
    next
      case (Some n)
      show ?thesis
      proof (cases "n = 0")
        case True
        with Some \<open>lq_limit q = Some s\<close> ten show ?thesis by (simp add: getAllMovies_limit_eq)
      next
        case False
        have "getAllMovies_limit q = Math_min (toDouble (of_int n)) (Finite 100)"
          using Some \<open>lq_limit q = Some s\<close> False by (simp add: getAllMovies_limit_eq)
        with Math_min_100_shape [OF refl False] show ?thesis by simp
      qed
    qed
  qed
qed

lemma getAllMovies_pages_Finite:
  assumes n: "n < 2 ^ 53" and l: "l \<in> \<int>" "l \<noteq> 0" "\<bar>l\<bar> < 2 ^ 1024"
  shows "getAllMovies_pages n (Finite l) = Finite (of_int \<lceil>of_nat n / l\<rceil>)"
proof -
  have "\<bar>int n\<bar> \<le> 2 ^ 53" using n by simp
  from toDouble_int_exact [OF this] have tn: "toDouble (of_nat n) = Finite (of_nat n)" by simp
  from toDouble_quotient_ceiling [OF n l] obtain y where
    y: "toDouble (of_nat n / l) = Finite y" "\<lceil>y\<rceil> = \<lceil>of_nat n / l\<rceil>" by auto
  then show ?thesis by (simp add: getAllMovies_pages_def tn l)
qed

lemma getAllMovies_pages_exact:
  assumes n: "n < 2 ^ 53"
  shows "getAllMovies_pages n (getAllMovies_limit q) =
           (case getAllMovies_limit q of
              Finite l \<Rightarrow> Finite (of_int \<lceil>of_nat n / l\<rceil>)
            | _ \<Rightarrow> Finite 0)"
proof -
  have "\<bar>int n\<bar> \<le> 2 ^ 53" using n by simp
  from toDouble_int_exact [OF this] have tn: "toDouble (of_nat n) = Finite (of_nat n)" by simp
  from getAllMovies_limit_shape [of q] show ?thesis
  proof
    assume "getAllMovies_limit q = NegInfinity"
    then show ?thesis by (simp add: getAllMovies_pages_def tn)
  next
    assume "\<exists>l. getAllMovies_limit q = Finite l \<and> l \<le> 100 \<and> l \<noteq> 0 \<and> l \<in> \<int> \<and> \<bar>l\<bar> < 2 ^ 1024"
    then obtain l where l: "getAllMovies_limit q = Finite l" "l \<noteq> 0" "l \<in> \<int>" "\<bar>l\<bar> < 2 ^ 1024"
      by auto
    show ?thesis
      unfolding l(1) using getAllMovies_pages_Finite [OF n l(3,2,4)] by simp
  qed
qed

lemma getAllMovies_filter_eq:
  "getAllMovies_filter E q =
     (let g = nullish (lq_genre q) [];
          release_year =
            (case lq_year q of
               None \<Rightarrow> None
             | Some s \<Rightarrow> (case parseInt s None of
                           None \<Rightarrow> None
                         | Some n \<Rightarrow> Some (toDouble (of_int n))))
      in if g = [] then Inr \<lparr>f_genre = None, f_release_year = release_year\<rparr>
         else if list_all plainChar g \<or> rx_valid E g
           then Inr \<lparr>f_genre = Some (RegExp g), f_release_year = release_year\<rparr>
           else Inl SyntaxError)"
proof -
  have year: "(if parseInt_number (lq_year q) \<noteq> NaN then Some (parseInt_number (lq_year q)) else None)
      = (case lq_year q of
               None \<Rightarrow> None
             | Some s \<Rightarrow> (case parseInt s None of
                           None \<Rightarrow> None
                         | Some n \<Rightarrow> Some (toDouble (of_int n))))"
    by (simp add: parseInt_number_def parseInt_param_def nullish_def Number_def
        parseInt_undefined toDouble_not_NaN split: option.splits)
  show ?thesis
    unfolding getAllMovies_filter_def Let_def year
    by (simp add: nullish_def new_RegExp_def split: option.splits)
qed

text \<open>Numbers of the examples: small integers are doubles, \<open>2^53 + 1\<close> is not.\<close>

lemma toDouble_numeral:
  "numeral k \<le> (2::int) ^ 53 \<Longrightarrow> toDouble (numeral k) = Finite (numeral k)"
  using toDouble_int_exact [of "numeral k"] by simp

lemma toDouble_one: "toDouble 1 = Finite 1"
  using toDouble_int_exact [of 1] by simp

lemma binade_above_two_to_53: "binade 9007199254740993 = 53"
  by code_simp

lemma nearest_double_above_two_to_53: "nearest_double 9007199254740993 = 9007199254740992"
proof -
  have "\<lfloor>9007199254740993 / 2 :: rat\<rfloor> = 4503599627370496"
    by (rule floor_unique) simp_all
  then show ?thesis
    by (simp add: nearest_double_def binade_above_two_to_53 round_half_even_def Let_def)
qed

lemma toDouble_above_two_to_53: "toDouble 9007199254740993 = Finite 9007199254740992"
  by (simp add: toDouble_def Let_def nearest_double_above_two_to_53)

lemma catalogue_genres:
  "regex_test literal_engine (RegExp ''action'') ''Action/Crime''"
  "\<not> regex_test literal_engine (RegExp ''action'') ''Horror''"
  "regex_test literal_engine (RegExp ''action'') ''Action''"
  "\<not> regex_test literal_engine (RegExp ''action'') ''Crime''"
  by code_simp+

section \<open>The properties\<close>

subsection \<open>C1: the effective minimum of votes\<close>

text \<open>
  Claim C1, as the code has it: the effective \<open>minVotes\<close> is 3 when the parameter is
  missing, when \<open>parseInt\<close> finds no number in it, and when the parsed integer is zero;
  otherwise it is the parsed integer clamped to the range from 1 to 100.  The inputs
  \<open>0\<close> and \<open>abc\<close> give 3, the input \<open>-5\<close> gives 1 and the input \<open>500\<close> gives 100.
\<close>

theorem getTopRated_minVotes_normalised:
  "getTopRated_minVotes q =
     (case tq_minVotes q of
        None \<Rightarrow> 3
      | Some s \<Rightarrow>
          (case parseInt s (Some 10) of
             None \<Rightarrow> 3
           | Some n \<Rightarrow> if n = 0 then 3 else max 1 (min 100 n)))
   \<and> getTopRated_minVotes (q\<lparr>tq_minVotes := Some ''0''\<rparr>) = 3
   \<and> getTopRated_minVotes (q\<lparr>tq_minVotes := Some ''abc''\<rparr>) = 3
   \<and> getTopRated_minVotes (q\<lparr>tq_minVotes := Some ''-5''\<rparr>) = 1
   \<and> getTopRated_minVotes (q\<lparr>tq_minVotes := Some ''500''\<rparr>) = 100"
proof -
  have three: "parseInt ''3'' (Some 10) = Some 3"
    by (simp add: parseInt_def isWhiteSpace_def digitValue_def)
  have general: "getTopRated_minVotes q =
     (case tq_minVotes q of
        None \<Rightarrow> 3
      | Some s \<Rightarrow>
          (case parseInt s (Some 10) of
             None \<Rightarrow> 3
           | Some n \<Rightarrow> if n = 0 then 3 else max 1 (min 100 n)))"
    unfolding getTopRated_minVotes_def or_default_parse
    by (simp add: three or_default_def min_def max_def split: option.splits)
  have zero: "getTopRated_minVotes (q\<lparr>tq_minVotes := Some ''0''\<rparr>) = 3"
    by (simp add: getTopRated_minVotes_def parse_eval)
  have abc: "getTopRated_minVotes (q\<lparr>tq_minVotes := Some ''abc''\<rparr>) = 3"
    by (simp add: getTopRated_minVotes_def parse_eval)
  have neg: "getTopRated_minVotes (q\<lparr>tq_minVotes := Some ''-5''\<rparr>) = 1"
    by (simp add: getTopRated_minVotes_def parse_eval)
  have big: "getTopRated_minVotes (q\<lparr>tq_minVotes := Some ''500''\<rparr>) = 100"
    by (simp add: getTopRated_minVotes_def parse_eval)
  from general zero abc neg big show ?thesis by blast
qed

text \<open>
  Claim C1 as stated does not hold: it says that the input \<open>-5\<close> yields the default 3,
  and the code clamps it to 1.
\<close>

theorem getTopRated_minVotes_minus_five:
  "getTopRated_minVotes \<lparr>tq_genre = None, tq_minVotes = Some ''-5'', tq_limit = None\<rparr> = 1
   \<and> getTopRated_minVotes \<lparr>tq_genre = None, tq_minVotes = Some ''-5'', tq_limit = None\<rparr> \<noteq> 3"
  by (simp add: getTopRated_minVotes_def parse_eval)

subsection \<open>C2: ranking before rounding\<close>



subsection \<open>C3: the order of the output entries\<close>




subsection \<open>C4: what an output entry aggregates\<close>




subsection \<open>C5: the effective limit and the length of the result\<close>

text \<open>
  Claim C5, as the code has it: the effective \<open>limit\<close> is 10 when the parameter is
  missing, when \<open>parseInt\<close> finds no number in it, and when the parsed integer is zero;
  otherwise it is the parsed integer clamped to the range from 1 to 50.  With unique
  movie ids, the call either fails because the genre is not a regular expression, or
  returns at most \<open>limit\<close> entries and at most as many entries as there are movies that
  pass the genre filter and have at least the effective \<open>minVotes\<close> ratings.
\<close>

theorem getTopRated_limit_and_length:
  assumes d: "distinct (map mv_id (db_movies db))"
  shows "getTopRated_limit q =
           (case tq_limit q of
              None \<Rightarrow> 10
            | Some s \<Rightarrow>
                (case parseInt s (Some 10) of
                   None \<Rightarrow> 10
                 | Some n \<Rightarrow> if n = 0 then 10 else max 1 (min 50 n)))
       \<and> (case getTopRated E now db q of
             Inl e \<Rightarrow> getTopRated_genreRegex E (getTopRated_genre q) = Inl e
           | Inr resp \<Rightarrow>
               int (length (t_data resp)) \<le> getTopRated_limit q
               \<and> (\<exists>re. getTopRated_genreRegex E (getTopRated_genre q) = Inr re
                     \<and> length (t_data resp)
                         \<le> length (eligible_movies E re (getTopRated_minVotes q) db)))"
proof -
  have ten: "parseInt ''10'' (Some 10) = Some 10"
    by (simp add: parseInt_def isWhiteSpace_def digitValue_def)
  have general: "getTopRated_limit q =
           (case tq_limit q of
              None \<Rightarrow> 10
            | Some s \<Rightarrow>
                (case parseInt s (Some 10) of
                   None \<Rightarrow> 10
                 | Some n \<Rightarrow> if n = 0 then 10 else max 1 (min 50 n)))"
    unfolding getTopRated_limit_def or_default_parse
    by (simp add: ten or_default_def min_def max_def split: option.splits)
  have result: "case getTopRated E now db q of
             Inl e \<Rightarrow> getTopRated_genreRegex E (getTopRated_genre q) = Inl e
           | Inr resp \<Rightarrow>
               int (length (t_data resp)) \<le> getTopRated_limit q
               \<and> (\<exists>re. getTopRated_genreRegex E (getTopRated_genre q) = Inr re
                     \<and> length (t_data resp)
                         \<le> length (eligible_movies E re (getTopRated_minVotes q) db))"
  proof (cases "getTopRated_genreRegex E (getTopRated_genre q)")
    case (Inl e)
    then show ?thesis by (simp add: getTopRated_eq)
  next
    case (Inr re)
    have "int (length (ranked_groups E re (getTopRated_minVotes q) (getTopRated_limit q) db))
            \<le> getTopRated_limit q"
      using length_ranked_limit [of E re "getTopRated_minVotes q" "getTopRated_limit q" db]
        getTopRated_limit_range [of q] by simp
    with Inr length_ranked_eligible [OF d, of E re "getTopRated_minVotes q" "getTopRated_limit q"]
    show ?thesis by (simp add: getTopRated_eq)
  qed
  from general result show ?thesis by blast
qed

theorem getTopRated_limit_and_length_witness:
  "distinct (map mv_id (db_movies db_example))
   \<and> getTopRated_limit (no_params\<lparr>tq_limit := Some ''2''\<rparr>) = 2
   \<and> (case getTopRated literal_engine ''2025-01-01T00:00:00.000Z'' db_example
              (no_params\<lparr>tq_limit := Some ''2''\<rparr>) of
         Inl e \<Rightarrow> getTopRated_genreRegex literal_engine
                    (getTopRated_genre (no_params\<lparr>tq_limit := Some ''2''\<rparr>)) = Inl e
       | Inr resp \<Rightarrow>
           int (length (t_data resp)) \<le> getTopRated_limit (no_params\<lparr>tq_limit := Some ''2''\<rparr>)
           \<and> (\<exists>re. getTopRated_genreRegex literal_engine
                       (getTopRated_genre (no_params\<lparr>tq_limit := Some ''2''\<rparr>)) = Inr re
                 \<and> length (t_data resp)
                     \<le> length (eligible_movies literal_engine re
                           (getTopRated_minVotes (no_params\<lparr>tq_limit := Some ''2''\<rparr>)) db_example)))"
proof -
  have d: "distinct (map mv_id (db_movies db_example))"
    by (simp add: db_example_def)
  have two: "getTopRated_limit (no_params\<lparr>tq_limit := Some ''2''\<rparr>) = 2"
    by (simp add: getTopRated_limit_def no_params_def parse_eval)
  from d two getTopRated_limit_and_length [OF d, of "no_params\<lparr>tq_limit := Some ''2''\<rparr>"
      literal_engine "''2025-01-01T00:00:00.000Z''"]
  show ?thesis by blast
qed

text \<open>
  Claim C5 as stated does not hold: the input \<open>0\<close> is numeric, the claim clamps it to 1,
  and the code takes the default 10.
\<close>

theorem getTopRated_limit_zero:
  "getTopRated_limit \<lparr>tq_genre = None, tq_minVotes = None, tq_limit = Some ''0''\<rparr> = 10
   \<and> spec_normalise 10 1 50 (Some ''0'') = 1
   \<and> getTopRated_limit \<lparr>tq_genre = None, tq_minVotes = None, tq_limit = Some ''0''\<rparr>
       \<noteq> spec_normalise 10 1 50 (Some ''0'')"
  by (simp add: getTopRated_limit_def spec_normalise_def parse_eval)

subsection \<open>C6: the genre filter\<close>

text \<open>
  Claim C6: with a genre filter, the documents that reach the grouping are exactly the
  joined documents whose movie has a genre that the regular expression matches.  When
  the trimmed parameter is a literal (printable ASCII, no syntax character) and the
  genres are ASCII, the regular expression is built from it and matches exactly the
  genres that contain it as a substring, ignoring case.  The filter \<open>action\<close> matches the
  genres \<open>Sci-Fi Action\<close> and \<open>Action/Adventure\<close>, which it does not equal, and the filter
  \<open>sci\<close> matches \<open>Sci-Fi Action\<close>.
\<close>

theorem genre_filter_is_case_insensitive_substring:
  assumes plain: "list_all plainChar (trim g)" and ne: "trim g \<noteq> []"
    and ascii: "\<forall>m\<in>set (db_movies db). case mv_genre m of None \<Rightarrow> True | Some s \<Rightarrow> list_all asciiChar s"
  shows "joined_docs E (Some re) db
           = filter (\<lambda>(r, m). case mv_genre m of None \<Rightarrow> False | Some s \<Rightarrow> regex_test E re s)
               (joined_docs E None db)
       \<and> getTopRated_genreRegex E (getTopRated_genre (q\<lparr>tq_genre := Some g\<rparr>))
           = Inr (Some (RegExp (trim g)))
       \<and> joined_docs E (Some (RegExp (trim g))) db
           = filter (\<lambda>(r, m). case mv_genre m of None \<Rightarrow> False | Some s \<Rightarrow> ci_contains (trim g) s)
               (joined_docs E None db)
       \<and> regex_test E (RegExp ''action'') ''Sci-Fi Action''
       \<and> regex_test E (RegExp ''sci'') ''Sci-Fi Action''
       \<and> regex_test E (RegExp ''action'') ''Action/Adventure''
       \<and> ''action'' \<noteq> ''Action/Adventure''"
proof -
  have general: "joined_docs E (Some re) db
           = filter (\<lambda>(r, m). case mv_genre m of None \<Rightarrow> False | Some s \<Rightarrow> regex_test E re s)
               (joined_docs E None db)"
    unfolding joined_docs_match genre_matches_def by simp
  have regex: "getTopRated_genreRegex E (getTopRated_genre (q\<lparr>tq_genre := Some g\<rparr>))
           = Inr (Some (RegExp (trim g)))"
    using plain ne
    by (simp add: getTopRated_genreRegex_def getTopRated_genre_def nullish_def new_RegExp_def)
  have same: "genre_matches E (RegExp (trim g)) (snd d)
        = (case mv_genre (snd d) of None \<Rightarrow> False | Some s \<Rightarrow> ci_contains (trim g) s)"
    if "d \<in> set (joined_docs E None db)" for d
  proof -
    from that have "snd d \<in> set (db_movies db)" by (rule joined_docs_movie)
    with ascii have "case mv_genre (snd d) of None \<Rightarrow> True | Some s \<Rightarrow> list_all asciiChar s"
      by blast
    with plain show ?thesis
      by (simp add: genre_matches_def split: option.splits)
  qed
  have docs: "joined_docs E (Some (RegExp (trim g))) db
           = filter (\<lambda>(r, m). case mv_genre m of None \<Rightarrow> False | Some s \<Rightarrow> ci_contains (trim g) s)
               (joined_docs E None db)"
    unfolding joined_docs_match
    by (rule filter_cong [OF refl]) (use same in \<open>auto simp: case_prod_unfold\<close>)
  have p1: "list_all plainChar ''action'' \<and> list_all plainChar ''sci''"
    by (simp add: plainChar_def syntaxCharacter_def)
  have p2: "list_all asciiChar ''Sci-Fi Action'' \<and> list_all asciiChar ''Action/Adventure''"
    by (simp add: asciiChar_def)
  have c: "ci_contains ''action'' ''Sci-Fi Action'' \<and> ci_contains ''sci'' ''Sci-Fi Action''
      \<and> ci_contains ''action'' ''Action/Adventure''"
    by code_simp
  from p1 p2 c have ex: "regex_test E (RegExp ''action'') ''Sci-Fi Action''
       \<and> regex_test E (RegExp ''sci'') ''Sci-Fi Action''
       \<and> regex_test E (RegExp ''action'') ''Action/Adventure''"
    by simp
  from general regex docs ex show ?thesis by simp
qed

theorem genre_filter_is_case_insensitive_substring_witness:
  "list_all plainChar (trim '' action '') \<and> trim '' action '' \<noteq> []
   \<and> list_all (\<lambda>m. case mv_genre m of None \<Rightarrow> True | Some s \<Rightarrow> list_all asciiChar s)
        (db_movies db_example)
   \<and> getTopRated_genreRegex literal_engine
        (getTopRated_genre (no_params\<lparr>tq_genre := Some '' action ''\<rparr>))
       = Inr (Some (RegExp ''action''))
   \<and> joined_docs literal_engine (Some (RegExp ''action'')) db_example
       = filter (\<lambda>(r, m). case mv_genre m of None \<Rightarrow> False | Some s \<Rightarrow> ci_contains ''action'' s)
           (joined_docs literal_engine None db_example)
   \<and> map r_title (case getTopRated literal_engine ''2025-01-01T00:00:00.000Z'' db_example
        (no_params\<lparr>tq_genre := Some '' action ''\<rparr>) of Inl e \<Rightarrow> [] | Inr resp \<Rightarrow> t_data resp)
       = [''Heat'', ''Solaris'']
   \<and> map r_title (case getTopRated literal_engine ''2025-01-01T00:00:00.000Z'' db_example
        (no_params\<lparr>tq_genre := Some ''SCI'', tq_minVotes := Some ''1''\<rparr>) of
          Inl e \<Rightarrow> [] | Inr resp \<Rightarrow> t_data resp)
       = [''Solaris'']"
proof -
  have t: "trim '' action '' = ''action''"
    by (simp add: trim_def isWhiteSpace_def)
  have p: "list_all plainChar (trim '' action '')"
    unfolding t by (simp add: plainChar_def syntaxCharacter_def)
  have n: "trim '' action '' \<noteq> []"
    unfolding t by simp
  have a: "\<forall>m\<in>set (db_movies db_example). case mv_genre m of None \<Rightarrow> True | Some s \<Rightarrow> list_all asciiChar s"
    by (simp add: db_example_def asciiChar_def)
  have run: "map r_title (case getTopRated literal_engine ''2025-01-01T00:00:00.000Z'' db_example
        (no_params\<lparr>tq_genre := Some '' action ''\<rparr>) of Inl e \<Rightarrow> [] | Inr resp \<Rightarrow> t_data resp)
       = [''Heat'', ''Solaris'']"
    by code_simp
  have run2: "map r_title (case getTopRated literal_engine ''2025-01-01T00:00:00.000Z'' db_example
        (no_params\<lparr>tq_genre := Some ''SCI'', tq_minVotes := Some ''1''\<rparr>) of
          Inl e \<Rightarrow> [] | Inr resp \<Rightarrow> t_data resp)
       = [''Solaris'']"
    by code_simp
  have a': "list_all (\<lambda>m. case mv_genre m of None \<Rightarrow> True | Some s \<Rightarrow> list_all asciiChar s)
        (db_movies db_example)"
    by (simp add: db_example_def asciiChar_def)
  note th = genre_filter_is_case_insensitive_substring
    [OF p n a, of literal_engine "RegExp ''action''" no_params]
  from th have r: "getTopRated_genreRegex literal_engine
        (getTopRated_genre (no_params\<lparr>tq_genre := Some '' action ''\<rparr>))
       = Inr (Some (RegExp (trim '' action '')))"
    by (rule conjunct1 [OF conjunct2])
  from th have j: "joined_docs literal_engine (Some (RegExp (trim '' action ''))) db_example
       = filter (\<lambda>(r, m). case mv_genre m of None \<Rightarrow> False | Some s \<Rightarrow> ci_contains (trim '' action '') s)
           (joined_docs literal_engine None db_example)"
    by (rule conjunct1 [OF conjunct2 [OF conjunct2]])
  from p n a' r [unfolded t] j [unfolded t] run run2
  show ?thesis by (intro conjI)
qed

subsection \<open>C7: a blank genre is no filter\<close>

text \<open>
  Claim C7: for every snapshot of the collections and every genre parameter that is empty
  or made of white space only, the top-rated query returns what the same query returns
  with no genre parameter: the same entries in the same order, and the same metadata.
\<close>

theorem blank_genre_is_no_filter:
  assumes "list_all isWhiteSpace g"
  shows "getTopRated E now db (q\<lparr>tq_genre := Some g\<rparr>) = getTopRated E now db (q\<lparr>tq_genre := None\<rparr>)"
proof -
  have "getTopRated_genre (q\<lparr>tq_genre := Some g\<rparr>) = []"
    using trim_blank [OF assms] by (simp add: getTopRated_genre_def nullish_def)
  moreover have "getTopRated_genre (q\<lparr>tq_genre := None\<rparr>) = []"
    by (simp add: getTopRated_genre_def nullish_def trim_def)
  moreover have "getTopRated_minVotes (q\<lparr>tq_genre := Some g\<rparr>) = getTopRated_minVotes (q\<lparr>tq_genre := None\<rparr>)"
    by (simp add: getTopRated_minVotes_def)
  moreover have "getTopRated_limit (q\<lparr>tq_genre := Some g\<rparr>) = getTopRated_limit (q\<lparr>tq_genre := None\<rparr>)"
    by (simp add: getTopRated_limit_def)
  ultimately show ?thesis
    by (simp add: getTopRated_eq split: sum.splits)
qed

theorem blank_genre_is_no_filter_witness:
  "list_all isWhiteSpace [CHR '' '', CHR 0x09, CHR 0xA0, CHR 0x0A]
   \<and> getTopRated literal_engine ''2025-01-01T00:00:00.000Z'' db_example
        (no_params\<lparr>tq_genre := Some [CHR '' '', CHR 0x09, CHR 0xA0, CHR 0x0A]\<rparr>)
     = getTopRated literal_engine ''2025-01-01T00:00:00.000Z'' db_example
        (no_params\<lparr>tq_genre := None\<rparr>)"
proof -
  have w: "list_all isWhiteSpace [CHR '' '', CHR 0x09, CHR 0xA0, CHR 0x0A]"
    by (simp add: isWhiteSpace_def)
  from w blank_genre_is_no_filter [OF w] show ?thesis by blast
qed

subsection \<open>C8: ratings of movies that do not exist\<close>

text \<open>
  Claim C8: a rating whose movie reference equals the \<open>_id\<close> of no movie is dropped by
  the join.  The aggregation, and the service call, return with it exactly what they
  return without it: it adds to no group and it causes no error.
\<close>

theorem unresolved_ratings_are_dropped:
  assumes "rt_movie r \<notin> mv_id ` set ms"
  shows "getTopRatedAggregates E opts \<lparr>db_movies = ms, db_ratings = rs1 @ r # rs2\<rparr>
           = getTopRatedAggregates E opts \<lparr>db_movies = ms, db_ratings = rs1 @ rs2\<rparr>
       \<and> getTopRated E now \<lparr>db_movies = ms, db_ratings = rs1 @ r # rs2\<rparr> q
           = getTopRated E now \<lparr>db_movies = ms, db_ratings = rs1 @ rs2\<rparr> q"
proof -
  have "ranked_groups E re mv lim \<lparr>db_movies = ms, db_ratings = rs1 @ r # rs2\<rparr>
      = ranked_groups E re mv lim \<lparr>db_movies = ms, db_ratings = rs1 @ rs2\<rparr>" for re mv lim
    by (simp add: ranked_groups_def joined_docs_drop_unresolved [OF assms])
  then have agg: "getTopRatedAggregates E o' \<lparr>db_movies = ms, db_ratings = rs1 @ r # rs2\<rparr>
           = getTopRatedAggregates E o' \<lparr>db_movies = ms, db_ratings = rs1 @ rs2\<rparr>" for o'
    by (simp add: getTopRatedAggregates_def Let_def)
  show ?thesis
    unfolding getTopRated_def agg by simp
qed

theorem unresolved_ratings_are_dropped_witness:
  "rt_movie \<lparr>rt_movie = 9, rt_rating = 5\<rparr> \<notin> mv_id ` set (db_movies db_example)
   \<and> getTopRatedAggregates literal_engine
        \<lparr>o_genreRegex = None, o_minVotes = Some 1, o_limit = Some 10\<rparr>
        \<lparr>db_movies = db_movies db_example,
           db_ratings = [\<lparr>rt_movie = 1, rt_rating = 4\<rparr>] @ \<lparr>rt_movie = 9, rt_rating = 5\<rparr>
                          # [\<lparr>rt_movie = 3, rt_rating = 2\<rparr>]\<rparr>
     = getTopRatedAggregates literal_engine
        \<lparr>o_genreRegex = None, o_minVotes = Some 1, o_limit = Some 10\<rparr>
        \<lparr>db_movies = db_movies db_example,
           db_ratings = [\<lparr>rt_movie = 1, rt_rating = 4\<rparr>] @ [\<lparr>rt_movie = 3, rt_rating = 2\<rparr>]\<rparr>
   \<and> getTopRated literal_engine ''2025-01-01T00:00:00.000Z''
        \<lparr>db_movies = db_movies db_example,
           db_ratings = [\<lparr>rt_movie = 1, rt_rating = 4\<rparr>] @ \<lparr>rt_movie = 9, rt_rating = 5\<rparr>
                          # [\<lparr>rt_movie = 3, rt_rating = 2\<rparr>]\<rparr> no_params
     = getTopRated literal_engine ''2025-01-01T00:00:00.000Z''
        \<lparr>db_movies = db_movies db_example,
           db_ratings = [\<lparr>rt_movie = 1, rt_rating = 4\<rparr>] @ [\<lparr>rt_movie = 3, rt_rating = 2\<rparr>]\<rparr> no_params"
proof -
  have h: "rt_movie \<lparr>rt_movie = 9, rt_rating = 5\<rparr> \<notin> mv_id ` set (db_movies db_example)"
    by (simp add: db_example_def)
  from h unresolved_ratings_are_dropped [OF h] show ?thesis by blast
qed

subsection \<open>C9: the movie listing\<close>

text \<open>
  Claim C9, the numbers being doubles: the page is 1 when \<open>page\<close> is missing, is no
  number or is zero, and otherwise the double nearest to the integer read, which is that
  integer up to \<open>2^53\<close> in magnitude; the limit is 10 in the same cases and otherwise the
  smaller of that double and 100, so that it is an integer, at most 100 and not zero, or
  \<open>-Infinity\<close>; the offset is \<open>(page - 1) * limit\<close>; the filter holds the genre, as a
  regular expression with the flag \<open>i\<close>, when \<open>genre\<close> is not empty, and the year when
  \<open>year\<close> reads as an integer.  The call fails only when the genre is not a regular
  expression or a repository call fails; otherwise it returns the page of movies that the
  repository finds for that filter with the effective limit and the offset, the count of
  the movies that match the same filter, the page, and the number of pages
  \<open>Math.ceil(total / limit)\<close>, which for a count below \<open>2^53\<close> is the ceiling of the
  count divided by the effective limit (and zero when the limit is \<open>-Infinity\<close>).
\<close>

theorem getAllMovies_pagination:
  "getAllMovies_page q =
     (case lq_page q of
        None \<Rightarrow> Finite 1
      | Some s \<Rightarrow> (case parseInt s None of
                    None \<Rightarrow> Finite 1
                  | Some n \<Rightarrow> if n = 0 then Finite 1 else toDouble (of_int n)))
   \<and> (\<forall>n. \<bar>n\<bar> \<le> 2 ^ 53 \<longrightarrow> toDouble (of_int n) = Finite (of_int n))
   \<and> getAllMovies_limit q =
       (case lq_limit q of
          None \<Rightarrow> Finite 10
        | Some s \<Rightarrow> (case parseInt s None of
                      None \<Rightarrow> Finite 10
                    | Some n \<Rightarrow> if n = 0 then Finite 10
                               else Math_min (toDouble (of_int n)) (Finite 100)))
   \<and> (getAllMovies_limit q = NegInfinity
        \<or> (\<exists>l. getAllMovies_limit q = Finite l \<and> l \<le> 100 \<and> l \<noteq> 0 \<and> l \<in> \<int>))
   \<and> getAllMovies_skip q
       = times_number (minus_number (getAllMovies_page q) (Finite 1)) (getAllMovies_limit q)
   \<and> getAllMovies_filter E q =
       (let g = nullish (lq_genre q) [];
            release_year =
              (case lq_year q of
                 None \<Rightarrow> None
               | Some s \<Rightarrow> (case parseInt s None of
                             None \<Rightarrow> None
                           | Some n \<Rightarrow> Some (toDouble (of_int n))))
        in if g = [] then Inr \<lparr>f_genre = None, f_release_year = release_year\<rparr>
           else if list_all plainChar g \<or> rx_valid E g
             then Inr \<lparr>f_genre = Some (RegExp g), f_release_year = release_year\<rparr>
             else Inl SyntaxError)
   \<and> (case getAllMovies E repo q of
         Inl e \<Rightarrow>
           getAllMovies_filter E q = Inl e
           \<or> (\<exists>F. getAllMovies_filter E q = Inr F
                 \<and> (repo_getAllMovies repo F
                        \<lparr>fo_limit = getAllMovies_limit q, fo_skip = getAllMovies_skip q\<rparr> = Inl e
                      \<or> repo_countMovies repo F = Inl e))
       | Inr res \<Rightarrow>
           (\<exists>F. getAllMovies_filter E q = Inr F
              \<and> repo_getAllMovies repo F
                    \<lparr>fo_limit = getAllMovies_limit q, fo_skip = getAllMovies_skip q\<rparr>
                  = Inr (l_movies res)
              \<and> repo_countMovies repo F = Inr (l_total res))
           \<and> l_page res = getAllMovies_page q
           \<and> l_pages res
               = Math_ceil (divide_number (toDouble (of_nat (l_total res))) (getAllMovies_limit q))
           \<and> (l_total res < 2 ^ 53 \<longrightarrow>
                 l_pages res =
                   (case getAllMovies_limit q of
                      Finite l \<Rightarrow> Finite (of_int \<lceil>of_nat (l_total res) / l\<rceil>)
                    | _ \<Rightarrow> Finite 0)))"
proof -
  have exact: "(\<forall>n. \<bar>n\<bar> \<le> 2 ^ 53 \<longrightarrow> toDouble (of_int n) = Finite (of_int n))"
    using toDouble_int_exact by blast
  have shape: "(getAllMovies_limit q = NegInfinity
        \<or> (\<exists>l. getAllMovies_limit q = Finite l \<and> l \<le> 100 \<and> l \<noteq> 0 \<and> l \<in> \<int>))"
    using getAllMovies_limit_shape [of q] by blast
  have skip: "getAllMovies_skip q
       = times_number (minus_number (getAllMovies_page q) (Finite 1)) (getAllMovies_limit q)"
    by (simp add: getAllMovies_skip_def)
  have run: "(case getAllMovies E repo q of
         Inl e \<Rightarrow>
           getAllMovies_filter E q = Inl e
           \<or> (\<exists>F. getAllMovies_filter E q = Inr F
                 \<and> (repo_getAllMovies repo F
                        \<lparr>fo_limit = getAllMovies_limit q, fo_skip = getAllMovies_skip q\<rparr> = Inl e
                      \<or> repo_countMovies repo F = Inl e))
       | Inr res \<Rightarrow>
           (\<exists>F. getAllMovies_filter E q = Inr F
              \<and> repo_getAllMovies repo F
                    \<lparr>fo_limit = getAllMovies_limit q, fo_skip = getAllMovies_skip q\<rparr>
                  = Inr (l_movies res)
              \<and> repo_countMovies repo F = Inr (l_total res))
           \<and> l_page res = getAllMovies_page q
           \<and> l_pages res
               = Math_ceil (divide_number (toDouble (of_nat (l_total res))) (getAllMovies_limit q))
           \<and> (l_total res < 2 ^ 53 \<longrightarrow>
                 l_pages res =
                   (case getAllMovies_limit q of
                      Finite l \<Rightarrow> Finite (of_int \<lceil>of_nat (l_total res) / l\<rceil>)
                    | _ \<Rightarrow> Finite 0)))"
  proof (cases "getAllMovies E repo q")
    case (Inl e)
    then show ?thesis
      by (auto simp: getAllMovies_def Let_def split: sum.splits)
  next
    case (Inr res)
    then obtain F where F: "getAllMovies_filter E q = Inr F"
      and ms: "repo_getAllMovies repo F
                 \<lparr>fo_limit = getAllMovies_limit q, fo_skip = getAllMovies_skip q\<rparr> = Inr (l_movies res)"
      and n: "repo_countMovies repo F = Inr (l_total res)"
      and p: "l_page res = getAllMovies_page q"
      and ps: "l_pages res = getAllMovies_pages (l_total res) (getAllMovies_limit q)"
      by (auto simp: getAllMovies_def Let_def split: sum.splits)
    from ps have ps': "l_pages res
        = Math_ceil (divide_number (toDouble (of_nat (l_total res))) (getAllMovies_limit q))"
      by (simp add: getAllMovies_pages_def)
    have ex: "l_total res < 2 ^ 53 \<longrightarrow>
                 l_pages res =
                   (case getAllMovies_limit q of
                      Finite l \<Rightarrow> Finite (of_int \<lceil>of_nat (l_total res) / l\<rceil>)
                    | _ \<Rightarrow> Finite 0)"
      unfolding ps using getAllMovies_pages_exact [of "l_total res" q] by blast
    from F ms n have "\<exists>F. getAllMovies_filter E q = Inr F
              \<and> repo_getAllMovies repo F
                    \<lparr>fo_limit = getAllMovies_limit q, fo_skip = getAllMovies_skip q\<rparr>
                  = Inr (l_movies res)
              \<and> repo_countMovies repo F = Inr (l_total res)" by blast
    with p ps' ex show ?thesis unfolding Inr by simp
  qed
  from getAllMovies_page_eq [of q] exact getAllMovies_limit_eq [of q] shape skip
    getAllMovies_filter_eq [of E q] run
  show ?thesis by (intro conjI)
qed

theorem getAllMovies_pagination_witness:
  "getAllMovies_page \<lparr>lq_genre = None, lq_year = None, lq_page = None, lq_limit = None\<rparr> = Finite 1
   \<and> getAllMovies_limit \<lparr>lq_genre = None, lq_year = None, lq_page = None, lq_limit = None\<rparr> = Finite 10
   \<and> getAllMovies_limit \<lparr>lq_genre = None, lq_year = None, lq_page = None, lq_limit = Some ''500''\<rparr> = Finite 100
   \<and> getAllMovies_page \<lparr>lq_genre = None, lq_year = None, lq_page = Some ''9007199254740993'', lq_limit = None\<rparr> = Finite 9007199254740992
   \<and> getAllMovies_filter literal_engine \<lparr>lq_genre = Some ''action'', lq_year = Some ''1995'', lq_page = Some ''2'', lq_limit = Some ''2''\<rparr>
       = Inr \<lparr>f_genre = Some (RegExp ''action''), f_release_year = Some (Finite 1995)\<rparr>
   \<and> getAllMovies literal_engine (catalogue_repository literal_engine catalogue) \<lparr>lq_genre = Some ''action'', lq_year = Some ''1995'', lq_page = Some ''2'', lq_limit = Some ''2''\<rparr>
       = Inr \<lparr>l_movies = [''Desperado''], l_total = 3, l_page = Finite 2, l_pages = Finite 2\<rparr>
   \<and> getAllMovies literal_engine (catalogue_repository literal_engine catalogue) \<lparr>lq_genre = None, lq_year = None, lq_page = None, lq_limit = None\<rparr>
       = Inr \<lparr>l_movies = [''Heat'', ''Alien'', ''Speed'', ''Casino'', ''GoldenEye'', ''Desperado''],
              l_total = 6, l_page = Finite 1, l_pages = Finite 1\<rparr>"
proof -
  note dflt = getAllMovies_pagination [of "\<lparr>lq_genre = None, lq_year = None, lq_page = None, lq_limit = None\<rparr>" literal_engine "catalogue_repository literal_engine catalogue"]
  note capped = getAllMovies_pagination [of "\<lparr>lq_genre = None, lq_year = None, lq_page = None, lq_limit = Some ''500''\<rparr>" literal_engine "catalogue_repository literal_engine catalogue"]
  note big = getAllMovies_pagination [of "\<lparr>lq_genre = None, lq_year = None, lq_page = Some ''9007199254740993'', lq_limit = None\<rparr>" literal_engine "catalogue_repository literal_engine catalogue"]
  note run = getAllMovies_pagination [of "\<lparr>lq_genre = Some ''action'', lq_year = Some ''1995'', lq_page = Some ''2'', lq_limit = Some ''2''\<rparr>" literal_engine "catalogue_repository literal_engine catalogue"]
  from dflt [THEN conjunct1] have p: "getAllMovies_page \<lparr>lq_genre = None, lq_year = None, lq_page = None, lq_limit = None\<rparr> = Finite 1"
    by simp
  from dflt [THEN conjunct2, THEN conjunct2, THEN conjunct1] have l: "getAllMovies_limit \<lparr>lq_genre = None, lq_year = None, lq_page = None, lq_limit = None\<rparr> = Finite 10"
    by simp
  have "parseInt ''500'' None = Some 500"
    by (simp add: parseInt_def isWhiteSpace_def digitValue_def)
  with capped [THEN conjunct2, THEN conjunct2, THEN conjunct1] have c: "getAllMovies_limit \<lparr>lq_genre = None, lq_year = None, lq_page = None, lq_limit = Some ''500''\<rparr> = Finite 100"
    by (simp add: toDouble_numeral)
  have "parseInt ''9007199254740993'' None = Some 9007199254740993"
    by (simp add: parseInt_def isWhiteSpace_def digitValue_def)
  with big [THEN conjunct1] have b: "getAllMovies_page \<lparr>lq_genre = None, lq_year = None, lq_page = Some ''9007199254740993'', lq_limit = None\<rparr> = Finite 9007199254740992"
    by (simp add: toDouble_above_two_to_53)
  have y: "parseInt ''1995'' None = Some 1995"
    by (simp add: parseInt_def isWhiteSpace_def digitValue_def)
  have two: "parseInt ''2'' None = Some 2"
    by (simp add: parseInt_def isWhiteSpace_def digitValue_def)
  from run [THEN conjunct2, THEN conjunct2, THEN conjunct2, THEN conjunct2, THEN conjunct2, THEN conjunct1] have f: "getAllMovies_filter literal_engine \<lparr>lq_genre = Some ''action'', lq_year = Some ''1995'', lq_page = Some ''2'', lq_limit = Some ''2''\<rparr>
       = Inr \<lparr>f_genre = Some (RegExp ''action''), f_release_year = Some (Finite 1995)\<rparr>"
    by (simp add: Let_def nullish_def y plainChar_def syntaxCharacter_def toDouble_numeral)
  have p1: "getAllMovies_page \<lparr>lq_genre = Some ''action'', lq_year = Some ''1995'', lq_page = Some ''2'', lq_limit = Some ''2''\<rparr> = Finite 2"
    using run [THEN conjunct1] by (simp add: two toDouble_numeral)
  have l1: "getAllMovies_limit \<lparr>lq_genre = Some ''action'', lq_year = Some ''1995'', lq_page = Some ''2'', lq_limit = Some ''2''\<rparr> = Finite 2"
    using run [THEN conjunct2, THEN conjunct2, THEN conjunct1] by (simp add: two toDouble_numeral)
  have s1: "getAllMovies_skip \<lparr>lq_genre = Some ''action'', lq_year = Some ''1995'', lq_page = Some ''2'', lq_limit = Some ''2''\<rparr> = Finite 2"
    by (simp add: getAllMovies_skip_def p1 l1 toDouble_numeral toDouble_one)
  have s0: "getAllMovies_skip \<lparr>lq_genre = None, lq_year = None, lq_page = None, lq_limit = None\<rparr> = Finite 0"
    by (simp add: getAllMovies_skip_def p l toDouble_def)
  have f0: "getAllMovies_filter literal_engine \<lparr>lq_genre = None, lq_year = None, lq_page = None, lq_limit = None\<rparr> = Inr \<lparr>f_genre = None, f_release_year = None\<rparr>"
    using dflt [THEN conjunct2, THEN conjunct2, THEN conjunct2, THEN conjunct2, THEN conjunct2, THEN conjunct1] by (simp add: Let_def nullish_def)
  have m1: "repo_getAllMovies (catalogue_repository literal_engine catalogue) \<lparr>f_genre = Some (RegExp ''action''), f_release_year = Some (Finite 1995)\<rparr>
      \<lparr>fo_limit = Finite 2, fo_skip = Finite 2\<rparr> = Inr [''Desperado'']"
    by (simp add: catalogue_repository_def catalogue_def catalogue_matches_def index_of_def catalogue_genres
        del: regex_test.simps)
  have n1: "repo_countMovies (catalogue_repository literal_engine catalogue) \<lparr>f_genre = Some (RegExp ''action''), f_release_year = Some (Finite 1995)\<rparr> = Inr 3"
    by (simp add: catalogue_repository_def catalogue_def catalogue_matches_def catalogue_genres
        del: regex_test.simps)
  have m0: "repo_getAllMovies (catalogue_repository literal_engine catalogue) \<lparr>f_genre = None, f_release_year = None\<rparr>
      \<lparr>fo_limit = Finite 10, fo_skip = Finite 0\<rparr>
      = Inr [''Heat'', ''Alien'', ''Speed'', ''Casino'', ''GoldenEye'', ''Desperado'']"
    by (simp add: catalogue_repository_def catalogue_def catalogue_matches_def index_of_def)
  have n0: "repo_countMovies (catalogue_repository literal_engine catalogue) \<lparr>f_genre = None, f_release_year = None\<rparr> = Inr 6"
    by (simp add: catalogue_repository_def catalogue_def catalogue_matches_def)
  have c1: "\<lceil>3 / 2 :: rat\<rceil> = 2" by (rule ceiling_unique) simp_all
  have c0: "\<lceil>6 / 10 :: rat\<rceil> = 1" by (rule ceiling_unique) simp_all
  have pg1: "getAllMovies_pages 3 (Finite 2) = Finite 2"
    using getAllMovies_pages_Finite [of 3 2] c1 by simp
  have pg0: "getAllMovies_pages 6 (Finite 10) = Finite 1"
    using getAllMovies_pages_Finite [of 6 10] c0 by simp
  have r1: "getAllMovies literal_engine (catalogue_repository literal_engine catalogue) \<lparr>lq_genre = Some ''action'', lq_year = Some ''1995'', lq_page = Some ''2'', lq_limit = Some ''2''\<rparr>
       = Inr \<lparr>l_movies = [''Desperado''], l_total = 3, l_page = Finite 2, l_pages = Finite 2\<rparr>"
    by (simp add: getAllMovies_def Let_def f p1 l1 s1 m1 n1 pg1)
  have r0: "getAllMovies literal_engine (catalogue_repository literal_engine catalogue) \<lparr>lq_genre = None, lq_year = None, lq_page = None, lq_limit = None\<rparr>
       = Inr \<lparr>l_movies = [''Heat'', ''Alien'', ''Speed'', ''Casino'', ''GoldenEye'', ''Desperado''],
              l_total = 6, l_page = Finite 1, l_pages = Finite 1\<rparr>"
    by (simp add: getAllMovies_def Let_def f0 p l s0 m0 n0 pg0)
  from p l c b f r1 r0 show ?thesis by (intro conjI)
qed

subsection \<open>C10: fetching a movie that does not exist\<close>

text \<open>
  Claim C10: when the repository resolves to \<open>null\<close> or \<open>undefined\<close> for an id, the
  service resolves to \<open>null\<close>; when it resolves to a document, the service resolves to
  that document; the service call fails only when the repository call fails, with the
  same error.  So the service signals a missing movie by \<open>null\<close> and by nothing else.
\<close>

theorem getMovie_absent_is_null:
  "(\<forall>v. repo_getMovie repo ident = Inr v \<longrightarrow>
        getMovie repo ident = Inr (if v = Null \<or> v = Undefined then Null else v))
   \<and> (\<forall>e. repo_getMovie repo ident = Inl e \<longrightarrow> getMovie repo ident = Inl e)"
  by (auto simp: getMovie_def split: found.splits)

theorem getMovie_absent_is_null_witness:
  "repo_getMovie (titles_repository [''Heat'']) ''Alien'' = Inr Null
   \<and> getMovie (titles_repository [''Heat'']) ''Alien'' = Inr Null
   \<and> getMovie (titles_repository [''Heat'']) ''Heat'' = Inr (Document ''Heat'')
   \<and> getMovie \<lparr>repo_getAllMovies = (\<lambda>f opts. Inr []), repo_countMovies = (\<lambda>f. Inr 0),
                repo_getMovie = (\<lambda>i. Inr Undefined)\<rparr> ''Alien'' = (Inr Null :: error + string found)"
proof -
  have a: "repo_getMovie (titles_repository [''Heat'']) ''Alien'' = Inr Null"
    by (simp add: titles_repository_def)
  have h: "repo_getMovie (titles_repository [''Heat'']) ''Heat'' = Inr (Document ''Heat'')"
    by (simp add: titles_repository_def)
  have u: "repo_getMovie \<lparr>repo_getAllMovies = (\<lambda>f opts. Inr []), repo_countMovies = (\<lambda>f. Inr 0),
                repo_getMovie = (\<lambda>i. Inr Undefined)\<rparr> ''Alien'' = (Inr Undefined :: error + string found)"
    by simp
  from a h u
    getMovie_absent_is_null [of "titles_repository [''Heat'']" "''Alien''"]
    getMovie_absent_is_null [of "titles_repository [''Heat'']" "''Heat''"]
    getMovie_absent_is_null [of "\<lparr>repo_getAllMovies = (\<lambda>f opts. Inr []), repo_countMovies = (\<lambda>f. Inr 0),
                repo_getMovie = (\<lambda>i. Inr (Undefined :: string found))\<rparr>" "''Alien''"]
  show ?thesis by simp
qed

end
